theory Spec2Isabelle
  imports Complex_Main
begin

section \<open>Values and errors\<close>

text \<open>
  Ratings and rewards are Python floats. The only non-number the code tests for is NaN
  (\<open>math.isnan\<close>, \<open>np.isnan\<close>), so a float is either \<open>NaN\<close> or a number; numbers are
  exact reals (rounding and the infinities are not modelled). Comparisons with NaN are
  false in Python, which the code never relies on: it tests \<open>isnan\<close> first.
\<close>

datatype num = NaN | Num real

fun isnan :: "num \<Rightarrow> bool" where
  "isnan NaN = True"
| "isnan (Num v) = False"

text \<open>The exceptions of \<open>custom_exceptions.py\<close> and the built-in ones the modelled code can raise.\<close>

datatype error =
    UserFullError
  | SystemFullError
  | UnavailableArms
  | IndexError
  | KeyError
  | ValueError
  | TypeError
  | AssertionError
  | ZeroDivisionError

section \<open>Rating records\<close>

text \<open>
  A rating record is the dict stored in the held-out set: it has at least the field
  \<open>'rating'\<close>; further fields of a dataset pass through unread by the modelled code.
\<close>

record rating_record =
  rating :: num

section \<open>Rating Store: construction and the rating matrix (\<open>data_layer.py\<close>)\<close>

text \<open>
  \<open>Index.get_loc\<close>: the position of a key, KeyError if it is absent.
\<close>

fun get_loc :: "'a list \<Rightarrow> 'a \<Rightarrow> error + nat" where
  "get_loc [] x = Inl KeyError"
| "get_loc (y # ys) x =
     (if x = y then Inr 0
      else case get_loc ys x of Inl e \<Rightarrow> Inl e | Inr n \<Rightarrow> Inr (Suc n))"

text \<open>
  The utility matrix is a pandas DataFrame: row labels, column labels, and the cells by
  position (\<open>cells ! p ! q\<close>). The two accessors the store uses differ: \<open>.at\<close> addresses
  a cell by its labels and, as the comment in \<open>set_rating\<close> says, creates the row or the
  column of a label that is absent (appended last, filled with NaN); \<open>.iat\<close> addresses
  a cell by its position and raises IndexError outside the frame.
\<close>

record frame =
  row_labels :: "nat list"
  col_labels :: "nat list"
  cells :: "num list list"

definition at_set :: "frame \<Rightarrow> nat \<Rightarrow> nat \<Rightarrow> num \<Rightarrow> frame" where
  "at_set f u i v =
     (let f1 = (if u \<in> set (row_labels f) then f
                else f\<lparr> row_labels := row_labels f @ [u],
                        cells := cells f @ [replicate (length (col_labels f)) NaN] \<rparr>);
          f2 = (if i \<in> set (col_labels f1) then f1
                else f1\<lparr> col_labels := col_labels f1 @ [i],
                         cells := map (\<lambda>r. r @ [NaN]) (cells f1) \<rparr>)
      in case (get_loc (row_labels f2) u, get_loc (col_labels f2) i) of
           (Inr p, Inr q) \<Rightarrow> f2\<lparr> cells := (cells f2)[p := (cells f2 ! p)[q := v]] \<rparr>
         | _ \<Rightarrow> f2)"

definition iat :: "frame \<Rightarrow> nat \<Rightarrow> nat \<Rightarrow> error + num" where
  "iat f p q =
     (if p < length (row_labels f) \<and> q < length (col_labels f) then Inr (cells f ! p ! q)
      else Inl IndexError)"

text \<open>
  A row of a ratings table: \<open>(user_id, item_id, rating)\<close>. The held-out set is the dict
  \<open>user index \<mapsto> (item index \<mapsto> rating record)\<close>, kept as association lists.
\<close>

type_synonym row = "int \<times> int \<times> num"

record data_layer =
  relevanceThreshold :: real
  antiRelevanceThreshold :: real
  users :: "int list"
  items :: "int list"
  initial_train_set :: "(nat \<times> nat \<times> num) list"
  utility_matrix :: frame
  test_set :: "(nat \<times> (nat \<times> rating_record) list) list"
  relevantCount :: nat
  antiRelevantCount :: nat
  toDiscoverCount :: nat

text \<open>
  \<open>Series.value_counts()\<close>: every distinct value that is not NaN, with the number of
  its occurrences. (pandas orders the result by frequency; the loop below only adds up,
  so the order is immaterial.)
\<close>

definition value_counts :: "num list \<Rightarrow> (num \<times> nat) list" where
  "value_counts xs = map (\<lambda>v. (v, count_list xs v)) (remdups (filter (\<lambda>v. \<not> isnan v) xs))"

text \<open>
  The counting loop of the constructor (lines 145 to 154); the state is
  \<open>(relevantCount, antiRelevantCount)\<close>. It compares with \<open>\<le>\<close> and \<open>\<ge>\<close>, and the two
  tests are not exclusive.
\<close>

fun count_step :: "real \<Rightarrow> real \<Rightarrow> num \<times> nat \<Rightarrow> nat \<times> nat \<Rightarrow> nat \<times> nat" where
  "count_step rel anti (NaN, c) (rc, ac) = (rc, ac)"
| "count_step rel anti (Num v, c) (rc, ac) =
     (let ac' = (if v \<le> anti then ac + c else ac);
          rc' = (if v \<ge> rel then rc + c else rc)
      in (rc', ac'))"

definition count_relevant :: "real \<Rightarrow> real \<Rightarrow> num list \<Rightarrow> nat \<times> nat" where
  "count_relevant rel anti test_ratings =
     fold (count_step rel anti) (value_counts test_ratings) (0, 0)"

text \<open>
  \<open>pivot_table(index='user_id', columns='item_id', values='rating')\<close>: the mean rating
  of every (user, item) pair of the training rows, NaN ratings skipped; a user or an item
  is a row or a column of the table when it has a rating that is not NaN. Rows and columns
  come sorted.
\<close>

fun num_values :: "num list \<Rightarrow> real list" where
  "num_values [] = []"
| "num_values (NaN # rs) = num_values rs"
| "num_values (Num v # rs) = v # num_values rs"

definition pivot_cell :: "row list \<Rightarrow> int \<Rightarrow> int \<Rightarrow> num" where
  "pivot_cell train u i =
     (let vs = num_values (map (\<lambda>(u', i', r). r)
                             (filter (\<lambda>(u', i', r). u' = u \<and> i' = i) train))
      in if vs = [] then NaN else Num (sum_list vs / real (length vs)))"

definition pivot_index :: "row list \<Rightarrow> int list" where
  "pivot_index train =
     sort (remdups (map (\<lambda>(u, i, r). u) (filter (\<lambda>(u, i, r). \<not> isnan r) train)))"

definition pivot_columns :: "row list \<Rightarrow> int list" where
  "pivot_columns train =
     sort (remdups (map (\<lambda>(u, i, r). i) (filter (\<lambda>(u, i, r). \<not> isnan r) train)))"

text \<open>Replacing the ids of a table by their positions in the sorted catalogs.\<close>

fun to_indexes :: "int list \<Rightarrow> int list \<Rightarrow> row list \<Rightarrow> error + (nat \<times> nat \<times> num) list" where
  "to_indexes us its [] = Inr []"
| "to_indexes us its ((u, i, r) # rows) =
     (case get_loc us u of Inl e \<Rightarrow> Inl e | Inr u_idx \<Rightarrow>
     (case get_loc its i of Inl e \<Rightarrow> Inl e | Inr i_idx \<Rightarrow>
     (case to_indexes us its rows of Inl e \<Rightarrow> Inl e
      | Inr rest \<Rightarrow> Inr ((u_idx, i_idx, r) # rest))))"

text \<open>
  The last line of the constructor: for every user index of the indexed test table, the
  dict of that user's rows by item index. \<open>to_dict('index')\<close> raises ValueError when a
  user has two rows for one item.
\<close>

definition user_rows :: "(nat \<times> nat \<times> num) list \<Rightarrow> nat \<Rightarrow> (nat \<times> rating_record) list" where
  "user_rows test u =
     map (\<lambda>(u', i, r). (i, \<lparr> rating = r \<rparr>)) (filter (\<lambda>(u', i, r). u' = u) test)"

definition build_test_set ::
    "(nat \<times> nat \<times> num) list \<Rightarrow> error + (nat \<times> (nat \<times> rating_record) list) list" where
  "build_test_set test =
     (let levels = sort (remdups (map (\<lambda>(u, i, r). u) test)) in
      if list_all (\<lambda>u. distinct (map fst (user_rows test u))) levels
      then Inr (map (\<lambda>u. (u, user_rows test u)) levels)
      else Inl ValueError)"

text \<open>
  The constructor, for \<open>splitted=False\<close> and catalogs of users and of items passed in
  (the keys of the two catalogs; their attribute columns are carried along unread).
  \<open>rand\<close> is the vector drawn by \<open>np.random.rand\<close>, one number per row of \<open>whole_set\<close>.
  The steps, and so the errors, come in the source's order:
  \<^item> the split; an empty test part leaves an empty DataFrame as \<open>test_df\<close>;
  \<^item> the catalogs must have unique keys (TypeError). For a catalog user without a training
    rating the source calls \<open>self.utility_matrix.append(...)\<close> and drops the result, so
    the matrix gets no row; a catalog item without one does get its column of NaN;
  \<^item> the counts; reading \<open>test_df['rating']\<close> of the empty DataFrame raises KeyError;
  \<^item> sorting, then \<open>reset_index(drop=True)\<close>, which renumbers the rows that exist, and
    \<open>columns = range(n_items)\<close>, which raises ValueError unless there are as many
    columns as items;
  \<^item> ids to indexes in both tables (KeyError for an id outside the catalogs);
  \<^item> the held-out dict.
\<close>

definition DataLayer_init ::
    "int list \<Rightarrow> int list \<Rightarrow> row list \<Rightarrow> real list \<Rightarrow> real \<Rightarrow> real \<Rightarrow> real
     \<Rightarrow> error + data_layer" where
  "DataLayer_init users_arg items_arg whole_set rand test_proportion relevance_threshold
       antiRelevance_threshold =
     (let mask = map (\<lambda>x. x < test_proportion) rand;
          train_set = map fst (filter (\<lambda>(r, m). \<not> m) (zip whole_set mask));
          test_df = map fst (filter (\<lambda>(r, m). m) (zip whole_set mask));
          um_index = (if train_set = [] then [] else pivot_index train_set);
          um_columns = (if train_set = [] then [] else pivot_columns train_set)
      in
      if \<not> distinct users_arg then Inl TypeError
      else if \<not> distinct items_arg then Inl TypeError
      else
        let um_columns' = um_columns @ filter (\<lambda>i. i \<notin> set um_columns) items_arg in
        if test_df = [] then Inl KeyError
        else
          let (rc, ac) = count_relevant relevance_threshold antiRelevance_threshold
                           (map (\<lambda>(u, i, r). r) test_df);
              items' = sort items_arg;
              users' = sort users_arg;
              um_columns'' = sort um_columns'
          in
          if length um_columns'' \<noteq> length items' then Inl ValueError
          else
            (case to_indexes users' items' train_set of Inl e \<Rightarrow> Inl e
             | Inr train_idx \<Rightarrow>
            (case to_indexes users' items' test_df of Inl e \<Rightarrow> Inl e
             | Inr test_idx \<Rightarrow>
            (case build_test_set test_idx of Inl e \<Rightarrow> Inl e
             | Inr held_out \<Rightarrow>
              Inr \<lparr> relevanceThreshold = relevance_threshold,
                    antiRelevanceThreshold = antiRelevance_threshold,
                    users = users',
                    items = items',
                    initial_train_set = train_idx,
                    utility_matrix =
                      \<lparr> row_labels = [0..<length um_index],
                        col_labels = [0..<length items'],
                        cells = map (\<lambda>u. map (\<lambda>i. pivot_cell train_set u i) um_columns'')
                                  um_index \<rparr>,
                    test_set = held_out,
                    relevantCount = rc,
                    antiRelevantCount = ac,
                    toDiscoverCount = ac + rc \<rparr>))))"

definition get_n_items :: "data_layer \<Rightarrow> nat" where
  "get_n_items d = length (items d)"

definition get_n_users :: "data_layer \<Rightarrow> nat" where
  "get_n_users d = length (users d)"

definition list_users :: "data_layer \<Rightarrow> nat list" where
  "list_users d = [0..<length (users d)]"

text \<open>\<open>self.users.iloc[user_idx]\<close> raises IndexError outside the catalog.\<close>

definition get_user_id_from_index :: "data_layer \<Rightarrow> nat \<Rightarrow> error + int" where
  "get_user_id_from_index d user_idx =
     (if user_idx < length (users d) then Inr (users d ! user_idx) else Inl IndexError)"

definition get_user_initial_recommendations :: "data_layer \<Rightarrow> nat \<Rightarrow> nat list" where
  "get_user_initial_recommendations d user_idx =
     map (\<lambda>(u, i, r). i) (filter (\<lambda>(u, i, r). u = user_idx) (initial_train_set d))"

definition get_known_rating :: "data_layer \<Rightarrow> nat \<Rightarrow> nat \<Rightarrow> error + num" where
  "get_known_rating d user_idx item_idx = iat (utility_matrix d) user_idx item_idx"

definition set_rating :: "data_layer \<Rightarrow> nat \<Rightarrow> nat \<Rightarrow> num \<Rightarrow> data_layer" where
  "set_rating d user_idx item_idx r =
     (if isnan r then d
      else d\<lparr> utility_matrix := at_set (utility_matrix d) user_idx item_idx r \<rparr>)"

definition get_user_test_ratings_dict :: "data_layer \<Rightarrow> nat \<Rightarrow> (nat \<times> rating_record) list" where
  "get_user_test_ratings_dict d user_idx =
     (case map_of (test_set d) user_idx of Some m \<Rightarrow> m | None \<Rightarrow> [])"

definition get_relevant_count :: "data_layer \<Rightarrow> nat" where
  "get_relevant_count d = relevantCount d"

definition get_antirelevant_count :: "data_layer \<Rightarrow> nat" where
  "get_antirelevant_count d = antiRelevantCount d"

definition get_toDiscover_count :: "data_layer \<Rightarrow> nat" where
  "get_toDiscover_count d = toDiscoverCount d"

text \<open>
  \<open>DataLayer.isRelevant\<close> and \<open>DataLayer.isAntiRelevant\<close>: NaN first, then a strict
  comparison with the stored threshold.
\<close>

definition isRelevant :: "data_layer \<Rightarrow> rating_record \<Rightarrow> bool" where
  "isRelevant d r =
     (case rating r of NaN \<Rightarrow> False | Num v \<Rightarrow> v > relevanceThreshold d)"

definition isAntiRelevant :: "data_layer \<Rightarrow> rating_record \<Rightarrow> bool" where
  "isAntiRelevant d r =
     (case rating r of NaN \<Rightarrow> False | Num v \<Rightarrow> v < antiRelevanceThreshold d)"

section \<open>User Session (\<open>user_layer.py\<close>)\<close>

record user_layer =
  user_idx :: nat
  user_id :: int
  all_items_ids :: "nat list"
  available_items :: "nat list"
  user_ratings :: "(nat \<times> rating_record) list"

definition UserLayer_init :: "nat \<Rightarrow> data_layer \<Rightarrow> error + user_layer" where
  "UserLayer_init uidx d =
     (case get_user_id_from_index d uidx of Inl e \<Rightarrow> Inl e
      | Inr uid \<Rightarrow>
          let recommended_items_list = get_user_initial_recommendations d uidx in
          Inr \<lparr> user_idx = uidx,
                user_id = uid,
                all_items_ids = [0..<length (items d)],
                available_items =
                  filter (\<lambda>i. i \<notin> set recommended_items_list) [0..<length (items d)],
                user_ratings = get_user_test_ratings_dict d uidx \<rparr>)"

definition get_user_available_items_idxs :: "user_layer \<Rightarrow> bool \<Rightarrow> nat list" where
  "get_user_available_items_idxs ul enable_repetitions =
     (if enable_repetitions then all_items_ids ul else available_items ul)"

definition add_recommended_item :: "user_layer \<Rightarrow> nat \<Rightarrow> user_layer" where
  "add_recommended_item ul item_idx =
     ul\<lparr> available_items := filter (\<lambda>i. i \<noteq> item_idx) (available_items ul) \<rparr>"

definition get_test_rating :: "user_layer \<Rightarrow> nat \<Rightarrow> rating_record" where
  "get_test_rating ul item_id =
     (case map_of (user_ratings ul) item_id of
        Some r \<Rightarrow> r
      | None \<Rightarrow> \<lparr> rating = NaN \<rparr>)"

section \<open>Evaluator (\<open>evaluator.py\<close>)\<close>

text \<open>
  The evaluator keeps a reference to the data layer, of which it reads the thresholds and
  the three counts; the layer is passed to \<open>all_metrics\<close> here. The counters are Python
  ints that start at 0 and are only incremented.
\<close>

record evaluator =
  n_iters :: nat
  cum_recall_value :: real
  recall_count :: nat
  cum_fallout_value :: real
  fallout_count :: nat
  precision_count :: nat
  cum_precision_value :: real
  antiprecision_count :: nat
  cum_antiprecision_value :: real
  cum_discovering :: real
  discovering_count :: nat

definition Evaluator_init :: evaluator where
  "Evaluator_init =
     \<lparr> n_iters = 0, cum_recall_value = 0, recall_count = 0, cum_fallout_value = 0,
       fallout_count = 0, precision_count = 0, cum_precision_value = 0,
       antiprecision_count = 0, cum_antiprecision_value = 0, cum_discovering = 0,
       discovering_count = 0 \<rparr>"

text \<open>Python's \<open>/\<close> on two ints: ZeroDivisionError for a zero divisor.\<close>

definition py_div :: "nat \<Rightarrow> nat \<Rightarrow> error + real" where
  "py_div a b = (if b = 0 then Inl ZeroDivisionError else Inr (real a / real b))"

text \<open>
  \<open>all_metrics\<close>, statement by statement. \<open>toggle\<close> is carried as a boolean. An
  exception leaves the function at once.
\<close>

definition all_metrics ::
    "data_layer \<Rightarrow> evaluator \<Rightarrow> rating_record
     \<Rightarrow> error + ((real \<times> real \<times> real \<times> real \<times> real) \<times> evaluator)" where
  "all_metrics d e r =
     (let e1 = e\<lparr> n_iters := n_iters e + 1 \<rparr> in
     (case (if isRelevant d r then
              (let e2 = e1\<lparr> recall_count := recall_count e1 + 1 \<rparr> in
               (case py_div (recall_count e2) (get_relevant_count d) of Inl x \<Rightarrow> Inl x
                | Inr v \<Rightarrow>
                    Inr (True, e2\<lparr> cum_recall_value := v,
                                    precision_count := precision_count e2 + 1 \<rparr>)))
            else Inr (False, e1)) of Inl x \<Rightarrow> Inl x
      | Inr (toggle1, e3) \<Rightarrow>
     (case py_div (precision_count e3) (n_iters e3) of Inl x \<Rightarrow> Inl x
      | Inr p \<Rightarrow>
     (let e4 = e3\<lparr> cum_precision_value := p \<rparr> in
     (case (if isAntiRelevant d r then
              (let e5 = e4\<lparr> fallout_count := fallout_count e4 + 1 \<rparr> in
               (case py_div (fallout_count e5) (get_antirelevant_count d) of Inl x \<Rightarrow> Inl x
                | Inr v \<Rightarrow>
                    Inr (True, e5\<lparr> cum_fallout_value := v,
                                    antiprecision_count := antiprecision_count e5 + 1 \<rparr>)))
            else Inr (toggle1, e4)) of Inl x \<Rightarrow> Inl x
      | Inr (toggle2, e6) \<Rightarrow>
     (case py_div (antiprecision_count e6) (n_iters e6) of Inl x \<Rightarrow> Inl x
      | Inr ap \<Rightarrow>
     (let e7 = e6\<lparr> cum_antiprecision_value := ap \<rparr> in
     (case (if toggle2 then
              (let e8 = e7\<lparr> discovering_count := discovering_count e7 + 1 \<rparr> in
               (case py_div (discovering_count e8) (get_toDiscover_count d) of Inl x \<Rightarrow> Inl x
                | Inr v \<Rightarrow> Inr (e8\<lparr> cum_discovering := v \<rparr>)))
            else Inr e7) of Inl x \<Rightarrow> Inl x
      | Inr e9 \<Rightarrow>
          Inr ((cum_recall_value e9, cum_precision_value e9, cum_fallout_value e9,
                cum_antiprecision_value e9, cum_discovering e9), e9)))))))))"

definition get_metrics :: "evaluator \<Rightarrow> real \<times> real \<times> real \<times> real \<times> real" where
  "get_metrics e =
     (cum_recall_value e, cum_precision_value e, cum_fallout_value e,
      cum_antiprecision_value e, cum_discovering e)"

definition restart_metrics :: "evaluator \<Rightarrow> evaluator" where
  "restart_metrics e =
     e\<lparr> n_iters := 0,
        cum_recall_value := 0,
        cum_fallout_value := 0,
        precision_count := 0,
        cum_precision_value := 0,
        antiprecision_count := 0,
        cum_antiprecision_value := 0,
        cum_discovering := 0 \<rparr>"

section \<open>Bandit Engine: selection policies (\<open>mab_policies.py\<close>)\<close>

text \<open>
  The policies draw from numpy's global generator. The draws of one policy call are an
  explicit argument: \<open>draw\<close> is the value of \<open>np.random.random_sample()\<close>, \<open>pick\<close>
  decides \<open>np.random.randint\<close> and \<open>np.random.choice\<close> (every element can be chosen, by
  some \<open>pick\<close>), and \<open>beta_sample i\<close> is the \<open>i\<close>-th component of \<open>np.random.beta\<close>.
\<close>

record rng =
  draw :: real
  pick :: nat
  beta_sample :: "nat \<Rightarrow> real"

definition randint :: "nat \<Rightarrow> nat \<Rightarrow> nat" where
  "randint n k = k mod n"

text \<open>\<open>np.random.choice\<close> raises ValueError on an empty array.\<close>

definition choice :: "nat list \<Rightarrow> nat \<Rightarrow> error + nat" where
  "choice xs k = (if xs = [] then Inl ValueError else Inr (xs ! (k mod length xs)))"

text \<open>\<open>np.where(xs == m)[0]\<close>: the positions holding \<open>m\<close>, ascending.\<close>

definition where_eq :: "'a list \<Rightarrow> 'a \<Rightarrow> nat list" where
  "where_eq xs m = filter (\<lambda>i. xs ! i = m) [0..<length xs]"

text \<open>
  All policies take the same arguments, in the source's order: the reward estimates, the
  pull counts, the alphas, the betas, the epoch, epsilon and delta. The vectors are
  index-aligned (both callers slice them with the same indices); numpy's broadcasting of
  vectors of different lengths is outside the model.
\<close>

definition random :: "real list \<Rightarrow> nat list \<Rightarrow> real list \<Rightarrow> real list \<Rightarrow> nat \<Rightarrow> real \<Rightarrow> real
    \<Rightarrow> rng \<Rightarrow> error + nat" where
  "random rewards n_pulls alphas' betas' mab_epoch epsilon' delta' g =
     (if length rewards = 0 then Inl UnavailableArms
      else Inr (randint (length rewards) (pick g)))"

definition greedy :: "real list \<Rightarrow> nat list \<Rightarrow> real list \<Rightarrow> real list \<Rightarrow> nat \<Rightarrow> real \<Rightarrow> real
    \<Rightarrow> rng \<Rightarrow> error + nat" where
  "greedy rewards n_pulls alphas' betas' mab_epoch epsilon' delta' g =
     (if length rewards = 0 then Inl UnavailableArms
      else let max_idxs = where_eq rewards (Max (set rewards))
           in choice max_idxs (pick g))"

definition e_greedy :: "real list \<Rightarrow> nat list \<Rightarrow> real list \<Rightarrow> real list \<Rightarrow> nat \<Rightarrow> real \<Rightarrow> real
    \<Rightarrow> rng \<Rightarrow> error + nat" where
  "e_greedy rewards n_pulls alphas' betas' mab_epoch epsilon' delta' g =
     (if length rewards = 0 then Inl UnavailableArms
      else if draw g < epsilon' then Inr (randint (length rewards) (pick g))
      else let max_idxs = where_eq rewards (Max (set rewards))
           in choice max_idxs (pick g))"

definition ts :: "real list \<Rightarrow> nat list \<Rightarrow> real list \<Rightarrow> real list \<Rightarrow> nat \<Rightarrow> real \<Rightarrow> real
    \<Rightarrow> rng \<Rightarrow> error + nat" where
  "ts rewards n_pulls alphas' betas' mab_epoch epsilon' delta' g =
     (if length rewards = 0 then Inl UnavailableArms
      else let draws = map (beta_sample g) [0..<length alphas'];
               max_idxs = where_eq draws (Max (set draws))
           in choice max_idxs (pick g))"

text \<open>
  UCB1. \<open>math.log\<close> raises ValueError for an epoch that is not positive; it is reached
  only in the scoring branch. \<open>ln\<close> and \<open>sqrt\<close> are the real functions.
\<close>

definition ucb :: "real list \<Rightarrow> nat list \<Rightarrow> real list \<Rightarrow> real list \<Rightarrow> nat \<Rightarrow> real \<Rightarrow> real
    \<Rightarrow> rng \<Rightarrow> error + nat" where
  "ucb rewards n_pulls alphas' betas' mab_epoch epsilon' delta' g =
     (if length rewards = 0 then Inl UnavailableArms
      else let zeroes_indexes = where_eq n_pulls 0 in
        if length zeroes_indexes > 0 then choice zeroes_indexes (pick g)
        else if mab_epoch = 0 then Inl ValueError
        else let d = (if delta' < 0 then 1 + real mab_epoch * (ln (real mab_epoch))\<^sup>2
                      else delta');
                 values = map (\<lambda>(r, n). r + sqrt (d * ln (real mab_epoch) / real n))
                            (zip rewards n_pulls);
                 max_idxs = where_eq values (Max (set values))
             in choice max_idxs (pick g))"

section \<open>Bandit Engine: state (\<open>naive_mab.py\<close>, \<open>restriction_naive_mab.py\<close>)\<close>

text \<open>
  The constructor evaluates the policy's name to one of the five functions; a name outside
  the list fails its assertion, so the field holds one of five values.
\<close>

datatype policy_name = Policy_greedy | Policy_e_greedy | Policy_random | Policy_ts | Policy_ucb

fun policy_fun :: "policy_name \<Rightarrow> real list \<Rightarrow> nat list \<Rightarrow> real list \<Rightarrow> real list \<Rightarrow> nat
    \<Rightarrow> real \<Rightarrow> real \<Rightarrow> rng \<Rightarrow> error + nat" where
  "policy_fun Policy_greedy = greedy"
| "policy_fun Policy_e_greedy = e_greedy"
| "policy_fun Policy_random = random"
| "policy_fun Policy_ts = ts"
| "policy_fun Policy_ucb = ucb"

text \<open>
  The per-arm vectors are numpy arrays of one length, \<open>narms\<close>. Pull counts and the epoch
  \<open>t\<close> only count up from 0 and 1, so they are naturals; alphas, betas and estimates are
  exact reals (the priors may be floats).
\<close>

record mab =
  policy :: policy_name
  num_pulls :: "nat list"
  alphas :: "real list"
  alpha0 :: real
  betas :: "real list"
  beta0 :: real
  init_estimate :: real
  reward_estimates :: "real list"
  epsilon :: real
  delta :: real
  totalrewards :: real
  t :: nat

definition NaiveMAB_init :: "policy_name \<Rightarrow> nat \<Rightarrow> real \<Rightarrow> real \<Rightarrow> real \<Rightarrow> real \<Rightarrow> error + mab" where
  "NaiveMAB_init pol narms eps dlt a0 b0 =
     (if \<not> (a0 \<ge> 0 \<and> b0 \<ge> 0) then Inl AssertionError
      else let est = (if a0 = 0 then 0 else a0 / (a0 + b0)) in
        Inr \<lparr> policy = pol,
              num_pulls = replicate narms 0,
              alphas = replicate narms a0,
              alpha0 = a0,
              betas = replicate narms b0,
              beta0 = b0,
              init_estimate = est,
              reward_estimates = replicate narms est,
              epsilon = eps,
              delta = dlt,
              totalrewards = 0,
              t = 1 \<rparr>)"

text \<open>\<open>RestrictionNaiveMAB.__init__\<close> only calls the constructor of \<open>NaiveMAB\<close>.\<close>

definition RestrictionNaiveMAB_init :: "policy_name \<Rightarrow> nat \<Rightarrow> real \<Rightarrow> real \<Rightarrow> real \<Rightarrow> real
    \<Rightarrow> error + mab" where
  "RestrictionNaiveMAB_init pol narms eps dlt a0 b0 = NaiveMAB_init pol narms eps dlt a0 b0"

text \<open>
  \<open>self.num_pulls[armidx] += 1; self.t += 1\<close>. An index outside the array raises
  IndexError at the first statement, before anything is written.
\<close>

definition record_pull :: "mab \<Rightarrow> nat \<Rightarrow> error + mab" where
  "record_pull s armidx =
     (if armidx < length (num_pulls s)
      then Inr (s\<lparr> num_pulls := (num_pulls s)[armidx := num_pulls s ! armidx + 1],
                    t := t s + 1 \<rparr>)
      else Inl IndexError)"

definition pull :: "mab \<Rightarrow> rng \<Rightarrow> error + (nat \<times> mab)" where
  "pull s g =
     (case policy_fun (policy s) (reward_estimates s) (num_pulls s) (alphas s) (betas s)
             (t s) (epsilon s) (delta s) g of
        Inl e \<Rightarrow> Inl e
      | Inr armidx \<Rightarrow>
          (case record_pull s armidx of
             Inl e \<Rightarrow> Inl e
           | Inr s' \<Rightarrow> Inr (armidx, s')))"

definition pull_fixed_arm :: "mab \<Rightarrow> nat \<Rightarrow> error + mab" where
  "pull_fixed_arm s armidx = record_pull s armidx"

text \<open>\<open>xs[idxs]\<close> with an index array: IndexError if some index is outside \<open>xs\<close>.\<close>

definition take_idxs :: "'a list \<Rightarrow> nat list \<Rightarrow> error + 'a list" where
  "take_idxs xs idxs =
     (if list_all (\<lambda>i. i < length xs) idxs then Inr (map (\<lambda>i. xs ! i) idxs)
      else Inl IndexError)"

text \<open>
  \<open>RestrictionNaiveMAB.pull(available_arms)\<close> returns the position in \<open>available_arms\<close>
  and the arm it stands for.
\<close>

definition restricted_pull :: "mab \<Rightarrow> nat list \<Rightarrow> rng \<Rightarrow> error + ((nat \<times> nat) \<times> mab)" where
  "restricted_pull s available_arms g =
     (case take_idxs (reward_estimates s) available_arms of Inl e \<Rightarrow> Inl e
      | Inr available_rewards \<Rightarrow>
     (case take_idxs (alphas s) available_arms of Inl e \<Rightarrow> Inl e
      | Inr available_alphas \<Rightarrow>
     (case take_idxs (betas s) available_arms of Inl e \<Rightarrow> Inl e
      | Inr available_betas \<Rightarrow>
     (case take_idxs (num_pulls s) available_arms of Inl e \<Rightarrow> Inl e
      | Inr available_n_pulls \<Rightarrow>
     (case policy_fun (policy s) available_rewards available_n_pulls available_alphas
             available_betas (t s) (epsilon s) (delta s) g of
        Inl e \<Rightarrow> Inl e
      | Inr fake_armidx \<Rightarrow>
          if \<not> fake_armidx < length available_arms then Inl IndexError
          else let armidx = available_arms ! fake_armidx in
            (case record_pull s armidx of
               Inl e \<Rightarrow> Inl e
             | Inr s' \<Rightarrow> Inr ((fake_armidx, armidx), s')))))))"

text \<open>
  \<open>update_rewards\<close>. Each branch first reads \<open>self.alphas[armidx]\<close> or
  \<open>self.betas[armidx]\<close>, which raises IndexError for an index outside the (index-aligned)
  vectors before anything is written. The third branch is taken by every reward that is
  neither 1 nor 0, NaN or not, when \<open>nanAsFailure\<close> is set.
\<close>

definition in_range :: "mab \<Rightarrow> nat \<Rightarrow> bool" where
  "in_range s armidx \<longleftrightarrow>
     armidx < length (alphas s) \<and> armidx < length (betas s)
     \<and> armidx < length (reward_estimates s)"

definition success_update :: "mab \<Rightarrow> nat \<Rightarrow> real \<Rightarrow> mab" where
  "success_update s armidx reward =
     (let s1 = s\<lparr> alphas := (alphas s)[armidx := alphas s ! armidx + 1] \<rparr>;
          s2 = s1\<lparr> reward_estimates := (reward_estimates s1)
                  [armidx := alphas s1 ! armidx / (alphas s1 ! armidx + betas s1 ! armidx)] \<rparr>
      in s2\<lparr> totalrewards := totalrewards s2 + reward \<rparr>)"

definition failure_update :: "mab \<Rightarrow> nat \<Rightarrow> mab" where
  "failure_update s armidx =
     (let s1 = s\<lparr> betas := (betas s)[armidx := betas s ! armidx + 1] \<rparr>
      in s1\<lparr> reward_estimates := (reward_estimates s1)
                  [armidx := alphas s1 ! armidx / (alphas s1 ! armidx + betas s1 ! armidx)] \<rparr>)"

definition update_rewards :: "mab \<Rightarrow> nat \<Rightarrow> num \<Rightarrow> bool \<Rightarrow> error + mab" where
  "update_rewards s armidx reward nanAsFailure =
     (if \<not> isnan reward \<and> reward = Num 1 then
        (if in_range s armidx then Inr (success_update s armidx 1) else Inl IndexError)
      else if \<not> isnan reward \<and> reward = Num 0 then
        (if in_range s armidx then Inr (failure_update s armidx) else Inl IndexError)
      else if nanAsFailure then
        (if in_range s armidx then Inr (failure_update s armidx) else Inl IndexError)
      else Inr s)"

definition reset_bandit :: "mab \<Rightarrow> mab" where
  "reset_bandit s =
     s\<lparr> totalrewards := 0,
        num_pulls := replicate (length (num_pulls s)) 0,
        t := 1,
        alphas := replicate (length (alphas s)) (alpha0 s),
        betas := replicate (length (betas s)) (beta0 s),
        reward_estimates := replicate (length (reward_estimates s)) (init_estimate s) \<rparr>"

text \<open>
  The calls a client can make on a bandit. \<open>NaiveMAB\<close> offers \<open>pull()\<close>,
  \<open>RestrictionNaiveMAB\<close> overrides it with \<open>pull(available_arms)\<close>; the other three
  methods are inherited unchanged. A call that raises leaves the bandit as it was (every
  raise above comes before the first write), and the client may go on calling.
\<close>

datatype bandit_call =
    Pull rng
  | RestrictedPull "nat list" rng
  | PullFixedArm nat
  | UpdateRewards nat num bool
  | ResetBandit

fun after_call :: "mab \<Rightarrow> bandit_call \<Rightarrow> mab" where
  "after_call s (Pull g) = (case pull s g of Inl e \<Rightarrow> s | Inr (armidx, s') \<Rightarrow> s')"
| "after_call s (RestrictedPull available_arms g) =
     (case restricted_pull s available_arms g of Inl e \<Rightarrow> s | Inr (idxs, s') \<Rightarrow> s')"
| "after_call s (PullFixedArm armidx) =
     (case pull_fixed_arm s armidx of Inl e \<Rightarrow> s | Inr s' \<Rightarrow> s')"
| "after_call s (UpdateRewards armidx reward nanAsFailure) =
     (case update_rewards s armidx reward nanAsFailure of Inl e \<Rightarrow> s | Inr s' \<Rightarrow> s')"
| "after_call s ResetBandit = reset_bandit s"

fun run :: "mab \<Rightarrow> bandit_call list \<Rightarrow> mab" where
  "run s [] = s"
| "run s (c # cs) = run (after_call s c) cs"

definition aligned :: "mab \<Rightarrow> bool" where
  "aligned s \<longleftrightarrow>
     length (alphas s) = length (num_pulls s) \<and> length (betas s) = length (num_pulls s)
     \<and> length (reward_estimates s) = length (num_pulls s)"

definition pulls_inv :: "mab \<Rightarrow> bool" where
  "pulls_inv s \<longleftrightarrow> sum_list (num_pulls s) + 1 = t s"

text \<open>
  The UCB1 score as the specification words it: a negative delta is replaced by
  \<open>1 + epoch * (ln epoch)\<^sup>2\<close>, and arm \<open>j\<close> scores
  \<open>estimate + sqrt (delta * ln epoch / pulls)\<close>.
\<close>

definition spec_ucb_delta :: "nat \<Rightarrow> real \<Rightarrow> real" where
  "spec_ucb_delta mab_epoch dlt =
     (if dlt < 0 then 1 + real mab_epoch * (ln (real mab_epoch))\<^sup>2 else dlt)"

definition spec_ucb_score :: "real list \<Rightarrow> nat list \<Rightarrow> nat \<Rightarrow> real \<Rightarrow> nat \<Rightarrow> real" where
  "spec_ucb_score rewards n_pulls mab_epoch dlt j =
     rewards ! j
       + sqrt (spec_ucb_delta mab_epoch dlt * ln (real mab_epoch) / real (n_pulls ! j))"

section \<open>Recommendation Engine (\<open>base_recommender.py\<close>)\<close>

text \<open>
  \<open>BaseRecommender\<close> is abstract in four methods. A concrete recommender is given by
  these over its own state \<open>'s\<close>; \<open>train\<close> runs before any loop and is not part of the
  loops modelled here. \<open>select_item\<close> draws from the global generator. The method
  \<open>rating_update\<close> is the field \<open>rating_update_method\<close> (the plain name is taken by
  the update of the field \<open>rating\<close>).
\<close>

record 's strategy =
  select_item :: "'s \<Rightarrow> data_layer \<Rightarrow> user_layer \<Rightarrow> bool \<Rightarrow> rng \<Rightarrow> error + (nat \<times> 's)"
  rating_update_method :: "'s \<Rightarrow> data_layer \<Rightarrow> nat \<Rightarrow> nat \<Rightarrow> rating_record \<Rightarrow> 's"
  epoch_update :: "'s \<Rightarrow> 's"

record 's recommender =
  strategy_state :: 's
  data_layer_of :: data_layer
  user_layers :: "nat \<rightharpoonup> user_layer"
  evaluator_of :: evaluator
  target_users_list :: "nat list"

definition BaseRecommender_init :: "'s \<Rightarrow> data_layer \<Rightarrow> 's recommender" where
  "BaseRecommender_init s0 d =
     \<lparr> strategy_state = s0, data_layer_of = d, user_layers = Map.empty,
       evaluator_of = Evaluator_init, target_users_list = list_users d \<rparr>"

definition recommend ::
    "'s strategy \<Rightarrow> 's recommender \<Rightarrow> nat \<Rightarrow> bool \<Rightarrow> rng \<Rightarrow> error + (nat \<times> 's recommender)" where
  "recommend strat R uid enable_repetitions g =
     (case (case user_layers R uid of
              None \<Rightarrow> UserLayer_init uid (data_layer_of R)
            | Some ul \<Rightarrow> Inr ul) of
        Inl e \<Rightarrow> Inl e
      | Inr userLayer \<Rightarrow>
          (case select_item strat (strategy_state R) (data_layer_of R) userLayer
                  enable_repetitions g of
             Inl e \<Rightarrow> Inl e
           | Inr (item, s') \<Rightarrow>
               Inr (item, R\<lparr> strategy_state := s',
                              user_layers := (user_layers R)
                                (uid \<mapsto> add_recommended_item userLayer item) \<rparr>)))"

text \<open>\<open>self.user_layers[user_id]\<close> raises KeyError for a user without a session.\<close>

definition check_rating ::
    "'s recommender \<Rightarrow> nat \<Rightarrow> nat \<Rightarrow> error + (rating_record \<times> 's recommender)" where
  "check_rating R uid item_id =
     (case user_layers R uid of
        None \<Rightarrow> Inl KeyError
      | Some ul \<Rightarrow>
          let r = get_test_rating ul item_id;
              v = rating r
          in Inr (r, R\<lparr> data_layer_of := set_rating (data_layer_of R) uid item_id v \<rparr>))"

definition eval_recommendation ::
    "'s recommender \<Rightarrow> rating_record
     \<Rightarrow> error + ((real \<times> real \<times> real \<times> real \<times> real) \<times> 's recommender)" where
  "eval_recommendation R r =
     (case all_metrics (data_layer_of R) (evaluator_of R) r of
        Inl e \<Rightarrow> Inl e
      | Inr (m, e') \<Rightarrow> Inr (m, R\<lparr> evaluator_of := e' \<rparr>))"

text \<open>
  One pass of the \<open>try\<close> block of \<open>fixed_user_recommendation_loop\<close>: the row appended
  to \<open>resultsL\<close> (user, item, rating, and the five metrics when they are enabled) and the
  recommender after \<open>epoch_update\<close>.
\<close>

type_synonym result_row = "nat \<times> nat \<times> num \<times> (real \<times> real \<times> real \<times> real \<times> real) option"

definition loop_body ::
    "'s strategy \<Rightarrow> 's recommender \<Rightarrow> nat \<Rightarrow> bool \<Rightarrow> bool \<Rightarrow> rng
     \<Rightarrow> error + (result_row \<times> 's recommender)" where
  "loop_body strat R uid enable_repetitions enable_metrics g =
     (case recommend strat R uid enable_repetitions g of Inl e \<Rightarrow> Inl e
      | Inr (item_id, R1) \<Rightarrow>
     (case check_rating R1 uid item_id of Inl e \<Rightarrow> Inl e
      | Inr (r, R2) \<Rightarrow>
     (let R3 = R2\<lparr> strategy_state :=
                     rating_update_method strat (strategy_state R2) (data_layer_of R2) uid item_id r \<rparr>
      in
      case (if enable_metrics
            then (case eval_recommendation R3 r of Inl e \<Rightarrow> Inl e
                  | Inr (m, R4) \<Rightarrow> Inr (Some m, R4))
            else Inr (None, R3)) of Inl e \<Rightarrow> Inl e
      | Inr (metrics, R5) \<Rightarrow>
          Inr ((uid, item_id, rating r, metrics),
               R5\<lparr> strategy_state := epoch_update strat (strategy_state R5) \<rparr>))))"

text \<open>
  The loop \<open>i = 1; while i < maxiter: ...\<close>. \<open>gs i\<close> is the draw of pass \<open>i\<close>.
  UserFullError ends the loop with the rows so far; any other exception leaves the
  function.
\<close>

function fixed_user_recommendation_while ::
    "'s strategy \<Rightarrow> nat \<Rightarrow> nat \<Rightarrow> bool \<Rightarrow> bool \<Rightarrow> (nat \<Rightarrow> rng) \<Rightarrow> nat \<Rightarrow> 's recommender
     \<Rightarrow> result_row list \<Rightarrow> error + result_row list" where
  "fixed_user_recommendation_while strat uid maxiter enable_repetitions enable_metrics gs
       i R resultsL =
     (if i < maxiter then
        (case loop_body strat R uid enable_repetitions enable_metrics (gs i) of
           Inl e \<Rightarrow> (if e = UserFullError then Inr resultsL else Inl e)
         | Inr (row, R') \<Rightarrow>
             fixed_user_recommendation_while strat uid maxiter enable_repetitions
               enable_metrics gs (i + 1) R' (resultsL @ [row]))
      else Inr resultsL)"
  by pat_completeness auto
termination
  by (relation "measure (\<lambda>(strat, uid, maxiter, er, em, gs, i, R, resultsL). maxiter - i)")
     auto

definition fixed_user_recommendation_loop ::
    "'s strategy \<Rightarrow> 's recommender \<Rightarrow> nat \<Rightarrow> nat \<Rightarrow> bool \<Rightarrow> bool \<Rightarrow> (nat \<Rightarrow> rng)
     \<Rightarrow> error + result_row list" where
  "fixed_user_recommendation_loop strat R uid maxiter enable_repetitions enable_metrics gs =
     fixed_user_recommendation_while strat uid maxiter enable_repetitions enable_metrics gs
       1 R []"

text \<open>
  \<open>RandomRecommender\<close> (\<open>random_rec.py\<close>): a uniform choice among the eligible items,
  UserFullError when there is none; it learns nothing.
\<close>

definition RandomRecommender :: "unit strategy" where
  "RandomRecommender =
     \<lparr> select_item = (\<lambda>s d ul enable_repetitions g.
         let eligible_items_ids = get_user_available_items_idxs ul enable_repetitions in
         if length eligible_items_ids = 0 then Inl UserFullError
         else (case choice eligible_items_ids (pick g) of
                 Inl e \<Rightarrow> Inl e
               | Inr item_idx \<Rightarrow> Inr (item_idx, s))),
       rating_update_method = (\<lambda>s d u i r. s),
       epoch_update = (\<lambda>s. s) \<rparr>"

section \<open>Notions of the specification\<close>

text \<open>
  The number of held-out entries of a store, and their ratings; a rating that is a number
  at least, or at most, a bound (NaN is neither).
\<close>

definition held_out_size :: "data_layer \<Rightarrow> nat" where
  "held_out_size d = sum_list (map (\<lambda>(u, m). length m) (test_set d))"

definition held_out_ratings :: "data_layer \<Rightarrow> num list" where
  "held_out_ratings d = concat (map (\<lambda>(u, m). map (\<lambda>(i, r). rating r) m) (test_set d))"

fun at_least :: "real \<Rightarrow> num \<Rightarrow> bool" where
  "at_least b NaN = False"
| "at_least b (Num v) = (v \<ge> b)"

fun at_most :: "real \<Rightarrow> num \<Rightarrow> bool" where
  "at_most b NaN = False"
| "at_most b (Num v) = (v \<le> b)"

text \<open>
  A store after any number of \<open>set_rating\<close> calls, as the loops make them.
\<close>

definition set_ratings :: "data_layer \<Rightarrow> (nat \<times> nat \<times> num) list \<Rightarrow> data_layer" where
  "set_ratings d ws = fold (\<lambda>(u, i, v) d'. set_rating d' u i v) ws d"

section \<open>Concrete inputs\<close>

text \<open>
  A store with three users and one item. User 1 has the only training rating; users 2
  and 3 have a held-out rating each (3 and 5). \<open>store0\<close> has both thresholds at 3,
  \<open>store1\<close> has the relevance threshold at 3.5 and the antirelevance threshold at 2.5.
  \<open>ul2\<close> is the session of the third user, \<open>eval1\<close> the evaluator after one relevant
  outcome on \<open>store0\<close>.
\<close>

definition store0 :: data_layer where
  "store0 =
     \<lparr> relevanceThreshold = 3, antiRelevanceThreshold = 3,
       users = [1, 2, 3], items = [10],
       initial_train_set = [(0, 0, Num 4)],
       utility_matrix = \<lparr> row_labels = [0], col_labels = [0], cells = [[Num 4]] \<rparr>,
       test_set = [(1, [(0, \<lparr> rating = Num 3 \<rparr>)]), (2, [(0, \<lparr> rating = Num 5 \<rparr>)])],
       relevantCount = 2, antiRelevantCount = 1, toDiscoverCount = 3 \<rparr>"

definition store1 :: data_layer where
  "store1 = store0\<lparr> relevanceThreshold := 7 / 2, antiRelevanceThreshold := 5 / 2,
                     relevantCount := 1, antiRelevantCount := 0, toDiscoverCount := 1 \<rparr>"

definition ul2 :: user_layer where
  "ul2 = \<lparr> user_idx = 2, user_id = 3, all_items_ids = [0], available_items = [0],
           user_ratings = [(0, \<lparr> rating = Num 5 \<rparr>)] \<rparr>"

definition eval1 :: evaluator where
  "eval1 =
     \<lparr> n_iters = 1, cum_recall_value = 1 / 2, recall_count = 1, cum_fallout_value = 0,
       fallout_count = 0, precision_count = 1, cum_precision_value = 1,
       antiprecision_count = 0, cum_antiprecision_value = 0, cum_discovering = 1 / 3,
       discovering_count = 1 \<rparr>"

text \<open>
  Two fresh greedy bandits with priors 0 (one arm, two arms), one draw, the sequence of
  draws that repeats it, and a sequence of calls.
\<close>

definition mab1 :: mab where
  "mab1 = \<lparr> policy = Policy_greedy, num_pulls = [0], alphas = [0], alpha0 = 0,
            betas = [0], beta0 = 0, init_estimate = 0, reward_estimates = [0],
            epsilon = 1 / 5, delta = 2, totalrewards = 0, t = 1 \<rparr>"

definition mab2 :: mab where
  "mab2 = \<lparr> policy = Policy_greedy, num_pulls = [0, 0], alphas = [0, 0], alpha0 = 0,
            betas = [0, 0], beta0 = 0, init_estimate = 0, reward_estimates = [0, 0],
            epsilon = 1 / 5, delta = 2, totalrewards = 0, t = 1 \<rparr>"

definition rng0 :: rng where
  "rng0 = \<lparr> draw = 0, pick = 0, beta_sample = (\<lambda>i. 1 / 2) \<rparr>"

definition gs0 :: "nat \<Rightarrow> rng" where
  "gs0 i = rng0"

definition calls0 :: "bandit_call list" where
  "calls0 = [Pull rng0, PullFixedArm 1, UpdateRewards 0 (Num 1) True, RestrictedPull [1] rng0]"

section \<open>Theorems\<close>

subsection \<open>Choosing among positions\<close>

lemma set_where_eq: "set (where_eq xs m) = {i. i < length xs \<and> xs ! i = m}"
  by (auto simp: where_eq_def)

lemma where_eq_empty_iff: "where_eq xs m = [] \<longleftrightarrow> (\<forall>i<length xs. xs ! i \<noteq> m)"
  by (auto simp: where_eq_def filter_empty_conv)

lemma choice_mem: "xs \<noteq> [] \<Longrightarrow> \<exists>i. choice xs k = Inr i \<and> i \<in> set xs"
  by (simp add: choice_def)

lemma randint_less: "0 < n \<Longrightarrow> randint n k < n"
  by (simp add: randint_def)

lemma where_eq_Max_nonempty: "xs \<noteq> [] \<Longrightarrow> where_eq xs (Max (set xs)) \<noteq> []"
proof -
  assume ne: "xs \<noteq> []"
  then have "Max (set xs) \<in> set xs" by simp
  then obtain i where "i < length xs" "xs ! i = Max (set xs)"
    by (auto simp: in_set_conv_nth)
  then show ?thesis by (auto simp: where_eq_empty_iff)
qed

lemma argmax_choice:
  fixes xs :: "real list"
  assumes "xs \<noteq> []"
  shows "\<exists>i. choice (where_eq xs (Max (set xs))) k = Inr i \<and> i < length xs
            \<and> (\<forall>j<length xs. xs ! j \<le> xs ! i)"
proof -
  from choice_mem [OF where_eq_Max_nonempty [OF assms], of k]
  obtain i where c: "choice (where_eq xs (Max (set xs))) k = Inr i"
    and m: "i \<in> set (where_eq xs (Max (set xs)))" by blast
  from m have i: "i < length xs" "xs ! i = Max (set xs)" by (simp_all add: set_where_eq)
  have "\<forall>j<length xs. xs ! j \<le> xs ! i" using i by simp
  with c i show ?thesis by blast
qed

subsection \<open>The policies return a position of their input\<close>

lemma ucb_zero_pulls:
  assumes ne: "rewards \<noteq> []" and len: "length n_pulls = length rewards"
    and z: "\<exists>j<length n_pulls. n_pulls ! j = 0"
  shows "\<exists>i. ucb rewards n_pulls al be ep eps dlt g = Inr i
            \<and> i < length rewards \<and> n_pulls ! i = 0"
proof -
  from z have nz: "where_eq n_pulls 0 \<noteq> []" by (simp add: where_eq_empty_iff)
  from choice_mem [OF nz, of "pick g"] obtain i
    where c: "choice (where_eq n_pulls 0) (pick g) = Inr i"
      and m: "i \<in> set (where_eq n_pulls 0)" by blast
  from m have "i < length n_pulls" "n_pulls ! i = 0" by (simp_all add: set_where_eq)
  with c nz ne len show ?thesis by (simp add: ucb_def Let_def)
qed

lemma ucb_scores:
  assumes ne: "rewards \<noteq> []" and len: "length n_pulls = length rewards"
    and nz: "\<forall>j<length n_pulls. n_pulls ! j \<noteq> 0" and ep: "1 \<le> ep"
  shows "\<exists>i. ucb rewards n_pulls al be ep eps dlt g = Inr i \<and> i < length rewards
            \<and> (\<forall>j<length rewards. spec_ucb_score rewards n_pulls ep dlt j
                                    \<le> spec_ucb_score rewards n_pulls ep dlt i)"
proof -
  from nz have z: "where_eq n_pulls 0 = []" by (simp add: where_eq_empty_iff)
  define vals where
    "vals = map (\<lambda>(r, n). r + sqrt (spec_ucb_delta ep dlt * ln (real ep) / real n))
              (zip rewards n_pulls)"
  have lv: "length vals = length rewards" using len by (simp add: vals_def)
  have vj: "\<And>j. j < length rewards \<Longrightarrow> vals ! j = spec_ucb_score rewards n_pulls ep dlt j"
    using len by (simp add: vals_def spec_ucb_score_def)
  have vne: "vals \<noteq> []" using lv ne by auto
  from argmax_choice [OF vne, of "pick g"] obtain i
    where c: "choice (where_eq vals (Max (set vals))) (pick g) = Inr i"
      and i: "i < length vals" and mx: "\<forall>j<length vals. vals ! j \<le> vals ! i" by blast
  have u: "ucb rewards n_pulls al be ep eps dlt g = Inr i"
    using ne z ep c by (simp add: ucb_def Let_def vals_def spec_ucb_delta_def)
  show ?thesis using u i mx lv vj by auto
qed

lemma ucb_total:
  assumes "rewards \<noteq> []" and "length n_pulls = length rewards" and "1 \<le> ep"
  shows "\<exists>i<length rewards. ucb rewards n_pulls al be ep eps dlt g = Inr i"
proof (cases "\<exists>j<length n_pulls. n_pulls ! j = 0")
  case True
  have "\<exists>i. ucb rewards n_pulls al be ep eps dlt g = Inr i
            \<and> i < length rewards \<and> n_pulls ! i = 0"
    using assms(1,2) True by (rule ucb_zero_pulls)
  then show ?thesis by (elim exE conjE) (rule exI, simp)
next
  case False
  then have nz: "\<forall>j<length n_pulls. n_pulls ! j \<noteq> 0" by simp
  have "\<exists>i. ucb rewards n_pulls al be ep eps dlt g = Inr i \<and> i < length rewards
            \<and> (\<forall>j<length rewards. spec_ucb_score rewards n_pulls ep dlt j
                                    \<le> spec_ucb_score rewards n_pulls ep dlt i)"
    using assms(1,2) nz assms(3) by (rule ucb_scores)
  then show ?thesis by (elim exE conjE) (rule exI, simp)
qed

lemma greedy_total:
  assumes "rewards \<noteq> []"
  shows "\<exists>i<length rewards. greedy rewards n_pulls al be ep eps dlt g = Inr i"
proof -
  from argmax_choice [OF assms, of "pick g"] obtain i
    where "choice (where_eq rewards (Max (set rewards))) (pick g) = Inr i"
      and "i < length rewards" by blast
  then have "greedy rewards n_pulls al be ep eps dlt g = Inr i \<and> i < length rewards"
    using assms by (simp add: greedy_def Let_def)
  then show ?thesis by blast
qed

lemma random_total:
  assumes "rewards \<noteq> []"
  shows "\<exists>i<length rewards. random rewards n_pulls al be ep eps dlt g = Inr i"
  using assms by (simp add: random_def randint_less)

lemma e_greedy_total:
  assumes "rewards \<noteq> []"
  shows "\<exists>i<length rewards. e_greedy rewards n_pulls al be ep eps dlt g = Inr i"
proof (cases "draw g < eps")
  case True
  then show ?thesis using assms by (simp add: e_greedy_def randint_less)
next
  case False
  from argmax_choice [OF assms, of "pick g"] obtain i
    where "choice (where_eq rewards (Max (set rewards))) (pick g) = Inr i"
      and "i < length rewards" by blast
  then have "e_greedy rewards n_pulls al be ep eps dlt g = Inr i \<and> i < length rewards"
    using assms False by (simp add: e_greedy_def Let_def)
  then show ?thesis by blast
qed

lemma ts_total:
  assumes "rewards \<noteq> []" and "length al = length rewards"
  shows "\<exists>i<length rewards. ts rewards n_pulls al be ep eps dlt g = Inr i"
proof -
  define draws where "draws = map (beta_sample g) [0..<length al]"
  have ne: "draws \<noteq> []" and ld: "length draws = length rewards"
    using assms by (auto simp: draws_def)
  from argmax_choice [OF ne, of "pick g"] obtain i
    where "choice (where_eq draws (Max (set draws))) (pick g) = Inr i"
      and "i < length draws" by blast
  then have "ts rewards n_pulls al be ep eps dlt g = Inr i \<and> i < length rewards"
    using assms ld by (simp add: ts_def Let_def draws_def)
  then show ?thesis by blast
qed

lemma policy_fun_total:
  assumes "rewards \<noteq> []" and "length n_pulls = length rewards"
    and "length al = length rewards" and "1 \<le> ep"
  shows "\<exists>i<length rewards. policy_fun p rewards n_pulls al be ep eps dlt g = Inr i"
proof (cases p)
  case Policy_greedy
  then show ?thesis using greedy_total [OF assms(1)] by simp
next
  case Policy_e_greedy
  then show ?thesis using e_greedy_total [OF assms(1)] by simp
next
  case Policy_random
  then show ?thesis using random_total [OF assms(1)] by simp
next
  case Policy_ts
  then show ?thesis using ts_total [OF assms(1,3)] by simp
next
  case Policy_ucb
  then show ?thesis using ucb_total [OF assms(1,2,4)] by simp
qed

subsection \<open>Bandit steps\<close>

lemma sum_list_bump:
  "i < length (xs :: nat list) \<Longrightarrow> sum_list (xs[i := Suc (xs ! i)]) = Suc (sum_list xs)"
  by (simp add: sum_list_update)

lemma record_pull_fields:
  "record_pull s i = Inr s' \<Longrightarrow>
     i < length (num_pulls s) \<and> num_pulls s' = (num_pulls s)[i := num_pulls s ! i + 1]
     \<and> t s' = t s + 1"
  by (auto simp: record_pull_def split: if_splits)

lemma record_pull_aligned: "record_pull s i = Inr s' \<Longrightarrow> aligned s \<Longrightarrow> aligned s'"
  by (auto simp: record_pull_def aligned_def split: if_splits)

lemma record_pull_total: "i < length (num_pulls s) \<Longrightarrow> \<exists>s'. record_pull s i = Inr s'"
  by (simp add: record_pull_def)

lemma pull_fields:
  "pull s g = Inr (i, s') \<Longrightarrow>
     i < length (num_pulls s) \<and> num_pulls s' = (num_pulls s)[i := num_pulls s ! i + 1]
     \<and> t s' = t s + 1"
  by (auto simp: pull_def split: sum.splits dest: record_pull_fields)

lemma pull_aligned: "pull s g = Inr (i, s') \<Longrightarrow> aligned s \<Longrightarrow> aligned s'"
  by (auto simp: pull_def split: sum.splits dest: record_pull_aligned)

lemma restricted_pull_fields:
  "restricted_pull s av g = Inr ((k, i), s') \<Longrightarrow>
     k < length av \<and> i = av ! k
     \<and> i < length (num_pulls s) \<and> num_pulls s' = (num_pulls s)[i := num_pulls s ! i + 1]
     \<and> t s' = t s + 1"
  by (auto simp: restricted_pull_def Let_def split: sum.splits if_splits
           dest: record_pull_fields)

lemma restricted_pull_aligned:
  "restricted_pull s av g = Inr (r, s') \<Longrightarrow> aligned s \<Longrightarrow> aligned s'"
  by (auto simp: restricted_pull_def Let_def split: sum.splits if_splits
           dest: record_pull_aligned)

lemma update_rewards_pulls:
  "update_rewards s i r naf = Inr s' \<Longrightarrow> num_pulls s' = num_pulls s \<and> t s' = t s"
  by (auto simp: update_rewards_def success_update_def failure_update_def Let_def
           split: if_splits)

lemma update_rewards_aligned:
  "update_rewards s i r naf = Inr s' \<Longrightarrow> aligned s \<Longrightarrow> aligned s'"
  by (auto simp: update_rewards_def success_update_def failure_update_def Let_def aligned_def
           split: if_splits)

lemma reset_bandit_aligned: "aligned s \<Longrightarrow> aligned (reset_bandit s)"
  by (simp add: aligned_def reset_bandit_def)

lemma after_call_inv: "pulls_inv s \<Longrightarrow> pulls_inv (after_call s c)"
proof (cases c)
  case (Pull g)
  assume "pulls_inv s"
  then show ?thesis using Pull
    by (auto simp: pulls_inv_def sum_list_bump split: sum.splits dest!: pull_fields)
next
  case (RestrictedPull av g)
  assume "pulls_inv s"
  then show ?thesis using RestrictedPull
    by (auto simp: pulls_inv_def sum_list_bump split: sum.splits dest!: restricted_pull_fields)
next
  case (PullFixedArm i)
  assume "pulls_inv s"
  then show ?thesis using PullFixedArm
    by (auto simp: pulls_inv_def pull_fixed_arm_def sum_list_bump split: sum.splits
             dest!: record_pull_fields)
next
  case (UpdateRewards i r naf)
  assume "pulls_inv s"
  then show ?thesis using UpdateRewards
    by (auto simp: pulls_inv_def split: sum.splits dest!: update_rewards_pulls)
next
  case ResetBandit
  then show ?thesis by (simp add: pulls_inv_def reset_bandit_def)
qed

lemma after_call_aligned: "aligned s \<Longrightarrow> aligned (after_call s c)"
proof (cases c)
  case (Pull g)
  assume "aligned s"
  then show ?thesis using Pull by (auto split: sum.splits dest: pull_aligned)
next
  case (RestrictedPull av g)
  assume "aligned s"
  then show ?thesis using RestrictedPull
    by (auto split: sum.splits dest: restricted_pull_aligned)
next
  case (PullFixedArm i)
  assume "aligned s"
  then show ?thesis using PullFixedArm
    by (auto simp: pull_fixed_arm_def split: sum.splits dest: record_pull_aligned)
next
  case (UpdateRewards i r naf)
  assume "aligned s"
  then show ?thesis using UpdateRewards
    by (auto split: sum.splits dest: update_rewards_aligned)
next
  case ResetBandit
  assume "aligned s"
  then show ?thesis using ResetBandit by (simp add: reset_bandit_aligned)
qed

lemma after_call_narms: "length (num_pulls (after_call s c)) = length (num_pulls s)"
proof (cases c)
  case (Pull g)
  then show ?thesis by (auto split: sum.splits dest!: pull_fields)
next
  case (RestrictedPull av g)
  then show ?thesis by (auto split: sum.splits dest!: restricted_pull_fields)
next
  case (PullFixedArm i)
  then show ?thesis
    by (auto simp: pull_fixed_arm_def split: sum.splits dest!: record_pull_fields)
next
  case (UpdateRewards i r naf)
  then show ?thesis by (auto split: sum.splits dest!: update_rewards_pulls)
next
  case ResetBandit
  then show ?thesis by (simp add: reset_bandit_def)
qed

lemma run_inv: "pulls_inv s \<Longrightarrow> pulls_inv (run s cs)"
  by (induction cs arbitrary: s) (simp_all add: after_call_inv)

lemma run_aligned: "aligned s \<Longrightarrow> aligned (run s cs)"
  by (induction cs arbitrary: s) (simp_all add: after_call_aligned)

lemma run_narms: "length (num_pulls (run s cs)) = length (num_pulls s)"
  by (induction cs arbitrary: s) (simp_all add: after_call_narms)

lemma init_inv:
  "NaiveMAB_init pol narms eps dlt a0 b0 = Inr s0 \<Longrightarrow>
     pulls_inv s0 \<and> aligned s0 \<and> t s0 = 1 \<and> length (num_pulls s0) = narms"
  by (auto simp: NaiveMAB_init_def pulls_inv_def aligned_def Let_def split: if_splits)

lemma pull_total:
  assumes "aligned s" and "pulls_inv s" and "num_pulls s \<noteq> []"
  shows "\<exists>i s'. pull s g = Inr (i, s')"
proof -
  have ne: "reward_estimates s \<noteq> []" using assms(1,3) by (auto simp: aligned_def)
  have l1: "length (num_pulls s) = length (reward_estimates s)"
    and l2: "length (alphas s) = length (reward_estimates s)"
    using assms(1) by (simp_all add: aligned_def)
  have ep: "1 \<le> t s" using assms(2) by (simp add: pulls_inv_def)
  from policy_fun_total [OF ne l1 l2 ep, of "policy s" "betas s" "epsilon s" "delta s" g]
  obtain i where i: "i < length (reward_estimates s)"
    and p: "policy_fun (policy s) (reward_estimates s) (num_pulls s) (alphas s) (betas s)
              (t s) (epsilon s) (delta s) g = Inr i" by (elim exE conjE)
  from i l1 have "i < length (num_pulls s)" by simp
  then obtain s' where "record_pull s i = Inr s'" using record_pull_total by blast
  with p show ?thesis by (simp add: pull_def)
qed

lemma take_idxs_total:
  "list_all (\<lambda>i. i < length xs) idxs \<Longrightarrow> take_idxs xs idxs = Inr (map (\<lambda>i. xs ! i) idxs)"
  by (simp add: take_idxs_def)

lemma restricted_pull_total:
  assumes "aligned s" and "pulls_inv s" and "av \<noteq> []"
    and "list_all (\<lambda>i. i < length (num_pulls s)) av"
  shows "\<exists>k i s'. restricted_pull s av g = Inr ((k, i), s')"
proof -
  have la: "list_all (\<lambda>i. i < length (reward_estimates s)) av"
       "list_all (\<lambda>i. i < length (alphas s)) av"
       "list_all (\<lambda>i. i < length (betas s)) av"
    using assms(1,4) by (simp_all add: aligned_def)
  define rs where "rs = map (\<lambda>i. reward_estimates s ! i) av"
  define ns where "ns = map (\<lambda>i. num_pulls s ! i) av"
  define als where "als = map (\<lambda>i. alphas s ! i) av"
  define bes where "bes = map (\<lambda>i. betas s ! i) av"
  have ne: "rs \<noteq> []" and l1: "length ns = length rs" and l2: "length als = length rs"
    using assms(3) by (simp_all add: rs_def ns_def als_def)
  have ep: "1 \<le> t s" using assms(2) by (simp add: pulls_inv_def)
  from policy_fun_total [OF ne l1 l2 ep, of "policy s" bes "epsilon s" "delta s" g]
  obtain k where k: "k < length rs"
    and p: "policy_fun (policy s) rs ns als bes (t s) (epsilon s) (delta s) g = Inr k"
    by (elim exE conjE)
  have kav: "k < length av" using k by (simp add: rs_def)
  then have "av ! k < length (num_pulls s)" using assms(4) by (simp add: list_all_length)
  then obtain s' where r: "record_pull s (av ! k) = Inr s'" using record_pull_total by blast
  have "restricted_pull s av g = Inr ((k, av ! k), s')"
    using la assms(4) p kav r
    by (simp add: restricted_pull_def take_idxs_total rs_def ns_def als_def bes_def Let_def)
  then show ?thesis by blast
qed

lemma run_calls0:
  "run mab2 calls0 = mab2\<lparr> num_pulls := [1, 2], alphas := [1, 0], reward_estimates := [1, 0],
                           totalrewards := 1, t := 4 \<rparr>"
  by (simp add: calls0_def pull_def restricted_pull_def take_idxs_def pull_fixed_arm_def
      update_rewards_def success_update_def in_range_def
      greedy_def where_eq_def choice_def record_pull_def mab2_def rng0_def Let_def)

subsection \<open>Counting the held-out ratings\<close>

lemma fold_count_step:
  "fold (count_step rel anti) vcs (rc, ac)
     = (rc + sum_list (map snd (filter (\<lambda>(v, c). at_least rel v) vcs)),
        ac + sum_list (map snd (filter (\<lambda>(v, c). at_most anti v) vcs)))"
proof (induction vcs arbitrary: rc ac)
  case Nil
  show ?case by simp
next
  case (Cons vc vcs)
  obtain v c where vc: "vc = (v, c)" by (cases vc)
  show ?case
  proof (cases v)
    case NaN
    with vc Cons show ?thesis by simp
  next
    case (Num x)
    with vc Cons show ?thesis by (simp add: Let_def)
  qed
qed

lemma sum_count_list:
  "finite S \<Longrightarrow> (\<Sum>v\<in>S. count_list xs v) = length (filter (\<lambda>x. x \<in> S) xs)"
proof (induction xs)
  case Nil
  show ?case by simp
next
  case (Cons x xs)
  have "(\<Sum>v\<in>S. count_list (x # xs) v)
          = (\<Sum>v\<in>S. count_list xs v + (if v = x then 1 else 0))"
    by (rule sum.cong) auto
  also have "\<dots> = (\<Sum>v\<in>S. count_list xs v) + (\<Sum>v\<in>S. if v = x then 1 else 0)"
    by (simp add: sum.distrib)
  also have "(\<Sum>v\<in>S. if v = x then 1 else 0) = (if x \<in> S then 1 else (0::nat))"
    using Cons.prems by simp
  finally show ?case using Cons by simp
qed

lemma sum_list_value_counts:
  assumes "\<And>v. P v \<Longrightarrow> \<not> isnan v"
  shows "sum_list (map snd (filter (\<lambda>(v, c). P v) (value_counts xs))) = length (filter P xs)"
proof -
  let ?ds = "remdups (filter (\<lambda>v. \<not> isnan v) xs)"
  have "map snd (filter (\<lambda>(v, c). P v) (value_counts xs))
          = map (count_list xs) (filter P ?ds)"
    by (simp add: value_counts_def filter_map comp_def)
  also have "filter P ?ds = remdups (filter P xs)"
  proof -
    have "filter P (filter (\<lambda>v. \<not> isnan v) xs) = filter P xs"
      using assms by (auto intro: filter_cong)
    then show ?thesis by (simp add: remdups_filter [symmetric])
  qed
  finally have "sum_list (map snd (filter (\<lambda>(v, c). P v) (value_counts xs)))
                  = sum_list (map (count_list xs) (remdups (filter P xs)))" by simp
  also have "\<dots> = (\<Sum>v\<in>set (filter P xs). count_list xs v)"
    by (simp add: sum_list_distinct_conv_sum_set)
  also have "\<dots> = length (filter (\<lambda>x. x \<in> set (filter P xs)) xs)"
    by (rule sum_count_list) simp
  also have "filter (\<lambda>x. x \<in> set (filter P xs)) xs = filter P xs"
    by (auto intro: filter_cong)
  finally show ?thesis .
qed

lemma at_least_not_nan: "at_least b v \<Longrightarrow> \<not> isnan v"
  by (cases v) simp_all

lemma at_most_not_nan: "at_most b v \<Longrightarrow> \<not> isnan v"
  by (cases v) simp_all

lemma count_relevant_eq:
  "count_relevant rel anti xs
     = (length (filter (at_least rel) xs), length (filter (at_most anti) xs))"
  by (simp add: count_relevant_def fold_count_step
      sum_list_value_counts [OF at_least_not_nan] sum_list_value_counts [OF at_most_not_nan])

lemma filter_disjoint_length:
  "(\<And>x. x \<in> set xs \<Longrightarrow> \<not> (P x \<and> Q x)) \<Longrightarrow>
     length (filter P xs) + length (filter Q xs) \<le> length xs"
  by (induction xs) auto

subsection \<open>What the constructor builds\<close>

lemma to_indexes_ratings:
  "to_indexes us its rows = Inr idx \<Longrightarrow>
     map (\<lambda>(u, i, r). r) idx = map (\<lambda>(u, i, r). r) rows"
proof (induction rows arbitrary: idx)
  case Nil
  then show ?case by simp
next
  case (Cons row rows)
  obtain u i r where row: "row = (u, i, r)" by (cases row)
  from Cons.prems row obtain u' i' rest where
    "to_indexes us its rows = Inr rest" and "idx = (u', i', r) # rest"
    by (auto split: sum.splits)
  with Cons.IH row show ?case by simp
qed

lemma user_rows_ratings:
  "map (\<lambda>(i, r). rating r) (user_rows test u)
     = map (\<lambda>(u', i, r). r) (filter (\<lambda>(u', i, r). u' = u) test)"
  by (induction test) (auto simp: user_rows_def)

lemma length_partition_by_key:
  "(\<Sum>u\<in>set (map f xs). length (filter (\<lambda>x. f x = u) xs)) = length xs"
proof -
  have "(\<Sum>u\<in>set (map f xs). length (filter (\<lambda>x. f x = u) xs))
          = (\<Sum>u\<in>set (map f xs). count_list (map f xs) u)"
    by (rule sum.cong) (simp_all add: count_list_eq_length_filter filter_map comp_def eq_commute)
  also have "\<dots> = length (map f xs)"
    by (rule sum_count_set) simp_all
  finally show ?thesis by simp
qed

lemma build_test_set_size:
  assumes "build_test_set test = Inr tset"
  shows "sum_list (map (\<lambda>(u, m). length m) tset) = length test"
proof -
  let ?levels = "sort (remdups (map (\<lambda>(u, i, r). u) test))"
  from assms have tset: "tset = map (\<lambda>u. (u, user_rows test u)) ?levels"
    by (auto simp: build_test_set_def Let_def split: if_splits)
  have "sum_list (map (\<lambda>(u, m). length m) tset)
          = sum_list (map (\<lambda>u. length (filter (\<lambda>(u', i, r). u' = u) test)) ?levels)"
    by (simp add: tset comp_def user_rows_def)
  also have "\<dots> = (\<Sum>u\<in>set ?levels. length (filter (\<lambda>(u', i, r). u' = u) test))"
    by (rule sum_list_distinct_conv_sum_set) simp
  also have "\<dots> = (\<Sum>u\<in>set (map (\<lambda>(u, i, r). u) test).
                      length (filter (\<lambda>x. (\<lambda>(u, i, r). u) x = u) test))"
    by (simp add: case_prod_unfold)
  also have "\<dots> = length test" by (rule length_partition_by_key)
  finally show ?thesis .
qed

lemma build_test_set_member:
  assumes "build_test_set test = Inr tset" and "map_of tset u = Some m"
    and "map_of m i = Some r"
  shows "rating r \<in> set (map (\<lambda>(u, i, r). r) test)"
proof -
  let ?levels = "sort (remdups (map (\<lambda>(u, i, r). u) test))"
  from assms(1) have tset: "tset = map (\<lambda>u. (u, user_rows test u)) ?levels"
    by (auto simp: build_test_set_def Let_def split: if_splits)
  from assms(2) have "(u, m) \<in> set tset" by (rule map_of_SomeD)
  with tset have m: "m = user_rows test u" by auto
  from assms(3) have "(i, r) \<in> set m" by (rule map_of_SomeD)
  with m have "(u, i, rating r) \<in> set test" by (auto simp: user_rows_def)
  then have "(\<lambda>(u, i, r). r) (u, i, rating r) \<in> set (map (\<lambda>(u, i, r). r) test)"
    unfolding set_map by (rule imageI)
  then show ?thesis by simp
qed

lemma DataLayer_init_facts:
  assumes "DataLayer_init us its whole_set rand tp rel anti = Inr d"
  shows "\<exists>test_idx. relevanceThreshold d = rel \<and> antiRelevanceThreshold d = anti
           \<and> (relevantCount d, antiRelevantCount d)
                = count_relevant rel anti (map (\<lambda>(u, i, r). r) test_idx)
           \<and> toDiscoverCount d = antiRelevantCount d + relevantCount d
           \<and> build_test_set test_idx = Inr (test_set d)"
proof -
  define test_df where
    "test_df = map fst (filter (\<lambda>(r, m). m) (zip whole_set (map (\<lambda>x. x < tp) rand)))"
  obtain rc ac where c: "count_relevant rel anti (map (\<lambda>(u, i, r). r) test_df) = (rc, ac)"
    by (cases "count_relevant rel anti (map (\<lambda>(u, i, r). r) test_df)")
  from assms c obtain test_idx tset where
    ti: "to_indexes (sort us) (sort its) test_df = Inr test_idx"
    and b: "build_test_set test_idx = Inr tset"
    and d: "relevanceThreshold d = rel" "antiRelevanceThreshold d = anti"
      "relevantCount d = rc" "antiRelevantCount d = ac" "toDiscoverCount d = ac + rc"
      "test_set d = tset"
    unfolding DataLayer_init_def Let_def test_df_def [symmetric]
    by (auto split: if_splits sum.splits)
  have "map (\<lambda>(u, i, r). r) test_idx = map (\<lambda>(u, i, r). r) test_df"
    using ti by (rule to_indexes_ratings)
  with c b d show ?thesis by (intro exI [of _ test_idx]) simp
qed

lemma build_test_set_ratings:
  assumes "build_test_set test = Inr tset"
  shows "set (map (\<lambda>(u, i, r). r) test)
           \<subseteq> set (concat (map (\<lambda>(u, m). map (\<lambda>(i, r). rating r) m) tset))"
proof
  fix v assume "v \<in> set (map (\<lambda>(u, i, r). r) test)"
  then obtain u i where mem: "(u, i, v) \<in> set test" by auto
  let ?levels = "sort (remdups (map (\<lambda>(u, i, r). u) test))"
  from assms have tset: "tset = map (\<lambda>u. (u, user_rows test u)) ?levels"
    by (auto simp: build_test_set_def Let_def split: if_splits)
  from mem have "u \<in> set ?levels" by force
  then have a: "(u, user_rows test u) \<in> set tset" by (simp add: tset)
  from mem have b: "(i, \<lparr> rating = v \<rparr>) \<in> set (user_rows test u)"
    by (force simp: user_rows_def)
  from a b show "v \<in> set (concat (map (\<lambda>(u, m). map (\<lambda>(i, r). rating r) m) tset))"
    by force
qed

lemma set_rating_fields:
  "relevanceThreshold (set_rating d u i v) = relevanceThreshold d
   \<and> antiRelevanceThreshold (set_rating d u i v) = antiRelevanceThreshold d
   \<and> relevantCount (set_rating d u i v) = relevantCount d
   \<and> antiRelevantCount (set_rating d u i v) = antiRelevantCount d
   \<and> toDiscoverCount (set_rating d u i v) = toDiscoverCount d
   \<and> test_set (set_rating d u i v) = test_set d
   \<and> users (set_rating d u i v) = users d
   \<and> items (set_rating d u i v) = items d
   \<and> initial_train_set (set_rating d u i v) = initial_train_set d"
  by (simp add: set_rating_def)

lemma set_ratings_fields:
  "relevanceThreshold (set_ratings d ws) = relevanceThreshold d
   \<and> antiRelevanceThreshold (set_ratings d ws) = antiRelevanceThreshold d
   \<and> relevantCount (set_ratings d ws) = relevantCount d
   \<and> antiRelevantCount (set_ratings d ws) = antiRelevantCount d
   \<and> toDiscoverCount (set_ratings d ws) = toDiscoverCount d
   \<and> test_set (set_ratings d ws) = test_set d
   \<and> users (set_ratings d ws) = users d
   \<and> items (set_ratings d ws) = items d
   \<and> initial_train_set (set_ratings d ws) = initial_train_set d"
  unfolding set_ratings_def
proof (induction ws arbitrary: d)
  case Nil
  show ?case by simp
next
  case (Cons w ws)
  obtain u i v where w: "w = (u, i, v)" by (cases w)
  show ?case using Cons [of "set_rating d u i v"] by (simp add: w set_rating_fields)
qed

lemma store0_init:
  "DataLayer_init [1, 2, 3] [10] [(1, 10, Num 4), (2, 10, Num 3), (3, 10, Num 5)]
       [9 / 10, 1 / 10, 2 / 10] (1 / 2) 3 3 = Inr store0"
  by (simp add: DataLayer_init_def store0_def pivot_index_def pivot_columns_def pivot_cell_def
      count_relevant_def value_counts_def build_test_set_def user_rows_def Let_def)

lemma store1_init:
  "DataLayer_init [1, 2, 3] [10] [(1, 10, Num 4), (2, 10, Num 3), (3, 10, Num 5)]
       [9 / 10, 1 / 10, 2 / 10] (1 / 2) (7 / 2) (5 / 2) = Inr store1"
  by (simp add: DataLayer_init_def store1_def store0_def pivot_index_def pivot_columns_def
      pivot_cell_def count_relevant_def value_counts_def build_test_set_def user_rows_def
      Let_def)

lemma held_out_relevant_counted:
  assumes "build_test_set test_idx = Inr tset"
    and "(rc, ac) = count_relevant rel anti (map (\<lambda>(u, i, r). r) test_idx)"
    and "map_of tset u = Some m" and "map_of m i = Some r"
  shows "(\<forall>v. rating r = Num v \<and> v > rel \<longrightarrow> 0 < rc)
       \<and> (\<forall>v. rating r = Num v \<and> v < anti \<longrightarrow> 0 < ac)"
proof -
  define rs where "rs = map (\<lambda>(u, i, r). r) test_idx"
  have mem: "rating r \<in> set rs"
    unfolding rs_def using assms(1,3,4) by (rule build_test_set_member)
  from assms(2) have rc: "rc = length (filter (at_least rel) rs)"
    and ac: "ac = length (filter (at_most anti) rs)"
    by (simp_all add: count_relevant_eq rs_def)
  have 1: "0 < rc" if "rating r = Num v" "v > rel" for v
  proof -
    from that mem have "Num v \<in> set (filter (at_least rel) rs)" by simp
    then show ?thesis unfolding rc by (rule length_pos_if_in_set)
  qed
  have 2: "0 < ac" if "rating r = Num v" "v < anti" for v
  proof -
    from that mem have "Num v \<in> set (filter (at_most anti) rs)" by simp
    then show ?thesis unfolding ac by (rule length_pos_if_in_set)
  qed
  from 1 2 show ?thesis by blast
qed

lemma ul2_init: "UserLayer_init 2 (set_ratings store0 [(1, 0, Num 3)]) = Inr ul2"
  by (simp add: UserLayer_init_def get_user_id_from_index_def set_ratings_def set_rating_def
      get_user_initial_recommendations_def get_user_test_ratings_dict_def store0_def ul2_def
      Let_def)

lemma set_rating_NaN: "set_rating d u i NaN = d"
  by (simp add: set_rating_def)

subsection \<open>The evaluator and the fixed-user loop\<close>

lemma all_metrics_returns:
  assumes "isRelevant d r \<Longrightarrow> 0 < relevantCount d"
    and "isAntiRelevant d r \<Longrightarrow> 0 < antiRelevantCount d"
    and "toDiscoverCount d = antiRelevantCount d + relevantCount d"
  shows "\<exists>m e'. all_metrics d e r = Inr (m, e')"
proof -
  have a: "isRelevant d r \<Longrightarrow> relevantCount d \<noteq> 0 \<and> toDiscoverCount d \<noteq> 0"
    using assms(1,3) by auto
  have b: "isAntiRelevant d r \<Longrightarrow> antiRelevantCount d \<noteq> 0 \<and> toDiscoverCount d \<noteq> 0"
    using assms(2,3) by auto
  show ?thesis
  proof (cases "isRelevant d r")
    case True
    note rel = True
    show ?thesis
    proof (cases "isAntiRelevant d r")
      case True
      with rel a b show ?thesis
        by (simp add: all_metrics_def py_div_def Let_def get_relevant_count_def
            get_antirelevant_count_def get_toDiscover_count_def)
    next
      case False
      with rel a show ?thesis
        by (simp add: all_metrics_def py_div_def Let_def get_relevant_count_def
            get_antirelevant_count_def get_toDiscover_count_def)
    qed
  next
    case False
    note nrel = False
    show ?thesis
    proof (cases "isAntiRelevant d r")
      case True
      with nrel b show ?thesis
        by (simp add: all_metrics_def py_div_def Let_def get_relevant_count_def
            get_antirelevant_count_def get_toDiscover_count_def)
    next
      case False
      with nrel show ?thesis
        by (simp add: all_metrics_def py_div_def Let_def get_relevant_count_def
            get_antirelevant_count_def get_toDiscover_count_def)
    qed
  qed
qed

lemma fixed_user_while_rows:
  assumes step: "\<And>R g. P R \<Longrightarrow>
      \<exists>row R'. loop_body strat R uid er em g = Inr (row, R') \<and> P R'"
    and "P R"
  shows "\<exists>rows. fixed_user_recommendation_while strat uid maxiter er em gs i R resultsL
                   = Inr rows
               \<and> length rows = length resultsL + (maxiter - i)"
  using assms(2)
proof (induction "maxiter - i" arbitrary: i R resultsL)
  case 0
  then show ?case by simp
next
  case (Suc n)
  from Suc.hyps(2) have lt: "i < maxiter" by simp
  from step [OF Suc.prems, of "gs i"] obtain row R' where
    b: "loop_body strat R uid er em (gs i) = Inr (row, R')" and p: "P R'"
    by (elim exE conjE)
  from Suc.hyps(2) have n: "n = maxiter - (i + 1)" by simp
  from Suc.hyps(1) [OF n p, of "resultsL @ [row]"] obtain rows where
    r: "fixed_user_recommendation_while strat uid maxiter er em gs (i + 1) R'
          (resultsL @ [row]) = Inr rows"
    and l: "length rows = length (resultsL @ [row]) + (maxiter - (i + 1))"
    by (elim exE conjE)
  have "fixed_user_recommendation_while strat uid maxiter er em gs i R resultsL = Inr rows"
    using lt b r by (subst fixed_user_recommendation_while.simps) simp
  moreover have "length rows = length resultsL + (maxiter - i)" using l lt by simp
  ultimately show ?case by blast
qed

lemma fixed_user_loop_rows:
  assumes "\<And>R g. P R \<Longrightarrow>
      \<exists>row R'. loop_body strat R uid er em g = Inr (row, R') \<and> P R'"
    and "P R"
  shows "\<exists>rows. fixed_user_recommendation_loop strat R uid maxiter er em gs = Inr rows
               \<and> length rows = maxiter - 1"
  using fixed_user_while_rows [of P strat uid er em R maxiter gs 1 "[]", OF assms]
  by (simp add: fixed_user_recommendation_loop_def)


subsection \<open>The claims\<close>

text \<open>
  C1 (as amended). For every constructed store, each of \<open>relevantCount\<close> and
  \<open>antiRelevantCount\<close> is at most the number of held-out entries; and their sum is at
  most that number whenever no held-out rating \<open>v\<close> has
  \<open>relevanceThreshold \<le> v \<le> antiRelevanceThreshold\<close>, in particular whenever the
  antirelevance threshold is strictly below the relevance threshold.
\<close>

theorem C1_counts_bounded:
  assumes "DataLayer_init us its whole_set rand tp rel anti = Inr d"
  shows "relevantCount d \<le> held_out_size d
       \<and> antiRelevantCount d \<le> held_out_size d
       \<and> (list_all (\<lambda>v. \<not> (at_least rel v \<and> at_most anti v)) (held_out_ratings d)
            \<longrightarrow> relevantCount d + antiRelevantCount d \<le> held_out_size d)
       \<and> (anti < rel \<longrightarrow> relevantCount d + antiRelevantCount d \<le> held_out_size d)"
proof -
  from DataLayer_init_facts [OF assms] obtain test_idx where
    c: "(relevantCount d, antiRelevantCount d)
          = count_relevant rel anti (map (\<lambda>(u, i, r). r) test_idx)"
    and b: "build_test_set test_idx = Inr (test_set d)" by (elim exE conjE)
  let ?rs = "map (\<lambda>(u, i, r). r) test_idx"
  from c have rc: "relevantCount d = length (filter (at_least rel) ?rs)"
    and ac: "antiRelevantCount d = length (filter (at_most anti) ?rs)"
    by (simp_all add: count_relevant_eq)
  have sz: "held_out_size d = length ?rs"
    using build_test_set_size [OF b] by (simp add: held_out_size_def)
  have sub: "set ?rs \<subseteq> set (held_out_ratings d)"
    using build_test_set_ratings [OF b] by (simp add: held_out_ratings_def)
  have 1: "relevantCount d \<le> held_out_size d" unfolding rc sz by (rule length_filter_le)
  have 2: "antiRelevantCount d \<le> held_out_size d" unfolding ac sz by (rule length_filter_le)
  have 3: "relevantCount d + antiRelevantCount d \<le> held_out_size d"
    if "list_all (\<lambda>v. \<not> (at_least rel v \<and> at_most anti v)) (held_out_ratings d)"
  proof -
    from that sub have "\<And>v. v \<in> set ?rs \<Longrightarrow> \<not> (at_least rel v \<and> at_most anti v)"
      unfolding list_all_iff by blast
    then show ?thesis unfolding rc ac sz by (rule filter_disjoint_length)
  qed
  have 4: "relevantCount d + antiRelevantCount d \<le> held_out_size d" if "anti < rel"
  proof -
    have "\<And>v. v \<in> set ?rs \<Longrightarrow> \<not> (at_least rel v \<and> at_most anti v)"
    proof -
      fix v show "\<not> (at_least rel v \<and> at_most anti v)" using that by (cases v) auto
    qed
    then show ?thesis unfolding rc ac sz by (rule filter_disjoint_length)
  qed
  from 1 2 3 4 show ?thesis by blast
qed

theorem C1_counts_bounded_witness:
  "DataLayer_init [1, 2, 3] [10] [(1, 10, Num 4), (2, 10, Num 3), (3, 10, Num 5)]
       [9 / 10, 1 / 10, 2 / 10] (1 / 2) (7 / 2) (5 / 2) = Inr store1
   \<and> relevantCount store1 + antiRelevantCount store1 \<le> held_out_size store1
   \<and> held_out_size store1 = 2"
proof -
  have lt: "(5 / 2 :: real) < 7 / 2" by simp
  from C1_counts_bounded [OF store1_init] lt
  have "relevantCount store1 + antiRelevantCount store1 \<le> held_out_size store1" by blast
  moreover have "held_out_size store1 = 2"
    by (simp add: held_out_size_def store1_def store0_def)
  ultimately show ?thesis using store1_init by simp
qed

text \<open>
  C1 as stated fails for coinciding thresholds: the constructor counts with \<open>\<ge>\<close> and
  \<open>\<le>\<close>, so the held-out rating 3 of \<open>store0\<close> is counted as relevant and as
  antirelevant, and the two counts add up to 3 for 2 held-out entries.
\<close>

theorem C1_counterexample:
  "DataLayer_init [1, 2, 3] [10] [(1, 10, Num 4), (2, 10, Num 3), (3, 10, Num 5)]
       [9 / 10, 1 / 10, 2 / 10] (1 / 2) 3 3 = Inr store0
   \<and> relevantCount store0 = 2 \<and> antiRelevantCount store0 = 1 \<and> held_out_size store0 = 2
   \<and> \<not> relevantCount store0 + antiRelevantCount store0 \<le> held_out_size store0"
  using store0_init by (simp add: store0_def held_out_size_def)

text \<open>
  C2 (as amended). \<open>update_rewards\<close> validates nothing. For a valid arm index and a
  numeric reward that is neither 0 nor 1 (and not NaN) it raises no error: with
  \<open>nanAsFailure\<close> set it is exactly a failure update (beta plus one, the estimate
  recomputed), and without it the bandit is unchanged. Pull counts, alphas and the
  total-reward accumulator are untouched either way.
\<close>

theorem C2_update_rewards_unvalidated:
  assumes "v \<noteq> 0" and "v \<noteq> 1" and "in_range s i"
  shows "update_rewards s i (Num v) True =
           Inr (s\<lparr> betas := (betas s)[i := betas s ! i + 1],
                    reward_estimates := (reward_estimates s)
                      [i := alphas s ! i / (alphas s ! i + (betas s ! i + 1))] \<rparr>)
       \<and> update_rewards s i (Num v) False = Inr s"
  using assms
  by (simp add: update_rewards_def failure_update_def in_range_def Let_def)

theorem C2_update_rewards_unvalidated_witness:
  "update_rewards mab1 0 (Num 2) True
     = Inr (mab1\<lparr> betas := [1], reward_estimates := [0] \<rparr>)
   \<and> update_rewards mab1 0 (Num 2) False = Inr mab1"
  using C2_update_rewards_unvalidated [of 2 mab1 0]
  by (simp add: in_range_def mab1_def)

text \<open>
  C2 as stated fails: on a fresh one-arm bandit, the reward \<open>1/2\<close> with the default
  \<open>nanAsFailure = True\<close> is not rejected but counted as a failure, and beta changes.
\<close>

theorem C2_counterexample:
  "NaiveMAB_init Policy_greedy 1 (1 / 5) 2 0 0 = Inr mab1
   \<and> update_rewards mab1 0 (Num (1 / 2)) True
       = Inr (mab1\<lparr> betas := [1], reward_estimates := [0] \<rparr>)
   \<and> mab1\<lparr> betas := [1], reward_estimates := [0] \<rparr> \<noteq> mab1"
  by (simp add: NaiveMAB_init_def update_rewards_def failure_update_def in_range_def
      mab1_def Let_def)

text \<open>
  C3 fails on the code: \<open>restart_metrics\<close> resets eight of the eleven fields and leaves
  \<open>recall_count\<close>, \<open>fallout_count\<close> and \<open>discovering_count\<close>. After one relevant
  outcome on \<open>store0\<close> and a restart the evaluator is not the initial one, and the same
  outcome then yields recall 1 and discovery rate 2/3 where a fresh evaluator yields 1/2
  and 1/3.
\<close>

theorem C3_restart_metrics_keeps_hit_counts:
  "all_metrics store0 Evaluator_init \<lparr> rating = Num 5 \<rparr>
     = Inr ((1 / 2, 1, 0, 0, 1 / 3), eval1)
   \<and> restart_metrics eval1
     = Evaluator_init\<lparr> recall_count := 1, discovering_count := 1 \<rparr>
   \<and> restart_metrics eval1 \<noteq> Evaluator_init
   \<and> all_metrics store0 (restart_metrics eval1) \<lparr> rating = Num 5 \<rparr>
     = Inr ((1, 1, 0, 0, 2 / 3),
            eval1\<lparr> recall_count := 2, cum_recall_value := 1, discovering_count := 2,
                   cum_discovering := 2 / 3 \<rparr>)"
  by (simp add: all_metrics_def restart_metrics_def Evaluator_init_def eval1_def store0_def
      isRelevant_def isAntiRelevant_def py_div_def get_relevant_count_def
      get_antirelevant_count_def get_toDiscover_count_def Let_def)

text \<open>
  C4 fails on the code: the loop starts at \<open>i = 1\<close> and runs while \<open>i < maxiter\<close>.
  With repetitions allowed the third user of \<open>store0\<close> is never exhausted, yet
  \<open>maxiter = 1\<close> gives no recommendation and \<open>maxiter = 3\<close> gives two
  (\<open>fixed_user_loop_rows\<close> above: \<open>maxiter - 1\<close> in general).
\<close>

theorem C4_fixed_user_loop_one_short:
  "fixed_user_recommendation_loop RandomRecommender (BaseRecommender_init () store0) 2 1
       True False gs0 = Inr []
   \<and> fixed_user_recommendation_loop RandomRecommender (BaseRecommender_init () store0) 2 3
       True False gs0 = Inr [(2, 0, Num 5, None), (2, 0, Num 5, None)]"
  by (simp add: fixed_user_recommendation_loop_def loop_body_def recommend_def
      check_rating_def RandomRecommender_def BaseRecommender_init_def UserLayer_init_def
      get_user_id_from_index_def get_user_initial_recommendations_def
      get_user_test_ratings_dict_def get_user_available_items_idxs_def
      add_recommended_item_def get_test_rating_def set_rating_def at_set_def
      choice_def store0_def gs0_def rng0_def Let_def)

text \<open>
  C5. In every state reached from the constructor of either variant by any sequence of
  \<open>pull\<close>, \<open>pull(available_arms)\<close>, \<open>pull_fixed_arm\<close>, \<open>update_rewards\<close> and
  \<open>reset_bandit\<close> calls, the pull counts sum to \<open>t - 1\<close>. \<open>t\<close> is 1 after the
  constructor and after \<open>reset_bandit\<close>; every pull that returns has incremented the pull
  count of exactly one arm, and \<open>t\<close>, by one; and a pull returns whenever it has an arm
  to choose from.
\<close>

theorem C5_pull_count_invariant:
  assumes "NaiveMAB_init pol narms eps dlt a0 b0 = Inr s0
           \<or> RestrictionNaiveMAB_init pol narms eps dlt a0 b0 = Inr s0"
    and "s = run s0 calls"
  shows "t s0 = 1
       \<and> t (reset_bandit s) = 1
       \<and> 1 \<le> t s \<and> sum_list (num_pulls s) = t s - 1
       \<and> length (num_pulls s) = narms
       \<and> (\<forall>g i s'. pull s g = Inr (i, s') \<longrightarrow>
             i < narms \<and> num_pulls s' = (num_pulls s)[i := num_pulls s ! i + 1]
             \<and> t s' = t s + 1)
       \<and> (\<forall>av g k i s'. restricted_pull s av g = Inr ((k, i), s') \<longrightarrow>
             i < narms \<and> num_pulls s' = (num_pulls s)[i := num_pulls s ! i + 1]
             \<and> t s' = t s + 1)
       \<and> (\<forall>i s'. pull_fixed_arm s i = Inr s' \<longrightarrow>
             i < narms \<and> num_pulls s' = (num_pulls s)[i := num_pulls s ! i + 1]
             \<and> t s' = t s + 1)
       \<and> (0 < narms \<longrightarrow> (\<forall>g. \<exists>i s'. pull s g = Inr (i, s')))
       \<and> (\<forall>av g. av \<noteq> [] \<and> list_all (\<lambda>i. i < narms) av \<longrightarrow>
             (\<exists>k i s'. restricted_pull s av g = Inr ((k, i), s')))
       \<and> (\<forall>i<narms. \<exists>s'. pull_fixed_arm s i = Inr s')"
proof -
  from assms(1) have i0: "pulls_inv s0 \<and> aligned s0 \<and> t s0 = 1 \<and> length (num_pulls s0) = narms"
    by (auto simp: RestrictionNaiveMAB_init_def dest: init_inv)
  then have p: "pulls_inv s" and a: "aligned s" and n: "length (num_pulls s) = narms"
    using assms(2) by (simp_all add: run_inv run_aligned run_narms)
  from p have inv: "1 \<le> t s \<and> sum_list (num_pulls s) = t s - 1"
    by (auto simp: pulls_inv_def)
  have r: "t (reset_bandit s) = 1" by (simp add: reset_bandit_def)
  have c1: "\<forall>g i s'. pull s g = Inr (i, s') \<longrightarrow>
             i < narms \<and> num_pulls s' = (num_pulls s)[i := num_pulls s ! i + 1]
             \<and> t s' = t s + 1"
    using pull_fields n by blast
  have c2: "\<forall>av g k i s'. restricted_pull s av g = Inr ((k, i), s') \<longrightarrow>
             i < narms \<and> num_pulls s' = (num_pulls s)[i := num_pulls s ! i + 1]
             \<and> t s' = t s + 1"
    using restricted_pull_fields n by blast
  have c3: "\<forall>i s'. pull_fixed_arm s i = Inr s' \<longrightarrow>
             i < narms \<and> num_pulls s' = (num_pulls s)[i := num_pulls s ! i + 1]
             \<and> t s' = t s + 1"
    using record_pull_fields n unfolding pull_fixed_arm_def by blast
  have c4: "0 < narms \<longrightarrow> (\<forall>g. \<exists>i s'. pull s g = Inr (i, s'))"
    using pull_total [OF a p] n by auto
  have c5: "\<forall>av g. av \<noteq> [] \<and> list_all (\<lambda>i. i < narms) av \<longrightarrow>
             (\<exists>k i s'. restricted_pull s av g = Inr ((k, i), s'))"
    using restricted_pull_total [OF a p] n by auto
  have c6: "\<forall>i<narms. \<exists>s'. pull_fixed_arm s i = Inr s'"
    using record_pull_total n unfolding pull_fixed_arm_def by auto
  from i0 r inv n c1 c2 c3 c4 c5 c6 show ?thesis by blast
qed

theorem C5_pull_count_invariant_witness:
  "NaiveMAB_init Policy_greedy 2 (1 / 5) 2 0 0 = Inr mab2
   \<and> num_pulls (run mab2 calls0) = [1, 2] \<and> t (run mab2 calls0) = 4
   \<and> sum_list (num_pulls (run mab2 calls0)) = t (run mab2 calls0) - 1
   \<and> (\<exists>i s'. pull (run mab2 calls0) rng0 = Inr (i, s'))"
proof -
  have h: "NaiveMAB_init Policy_greedy 2 (1 / 5) 2 0 0 = Inr mab2"
    by (simp add: NaiveMAB_init_def mab2_def numeral_2_eq_2)
  have r: "num_pulls (run mab2 calls0) = [1, 2] \<and> t (run mab2 calls0) = 4"
    by (simp add: run_calls0)
  from C5_pull_count_invariant [OF disjI1 [OF h] refl, of calls0]
  have "sum_list (num_pulls (run mab2 calls0)) = t (run mab2 calls0) - 1
        \<and> (0 < (2::nat) \<longrightarrow> (\<forall>g. \<exists>i s'. pull (run mab2 calls0) g = Inr (i, s')))"
    by blast
  with h r show ?thesis by simp
qed

text \<open>
  C6. For a valid arm index, \<open>update_rewards\<close> with reward 1 increments that arm's alpha,
  sets its estimate to \<open>alpha / (alpha + beta)\<close> and adds one to the total reward; with
  reward 0 it increments beta and recomputes the estimate, the total reward unchanged;
  with reward NaN it is the failure update when \<open>nanAsFailure\<close> is set and changes
  nothing otherwise. From alpha = beta = 0, reward 1 then reward 0 on one arm leave the
  estimate \<open>1/2\<close>.
\<close>

theorem C6_update_rewards:
  assumes "in_range s i"
  shows "update_rewards s i (Num 1) naf =
           Inr (s\<lparr> alphas := (alphas s)[i := alphas s ! i + 1],
                    reward_estimates := (reward_estimates s)
                      [i := (alphas s ! i + 1) / (alphas s ! i + 1 + betas s ! i)],
                    totalrewards := totalrewards s + 1 \<rparr>)
       \<and> update_rewards s i (Num 0) naf =
           Inr (s\<lparr> betas := (betas s)[i := betas s ! i + 1],
                    reward_estimates := (reward_estimates s)
                      [i := alphas s ! i / (alphas s ! i + (betas s ! i + 1))] \<rparr>)
       \<and> update_rewards s i NaN True = update_rewards s i (Num 0) naf
       \<and> update_rewards s i NaN False = Inr s
       \<and> (alphas s ! i = 0 \<and> betas s ! i = 0 \<longrightarrow>
            (\<exists>s1 s2. update_rewards s i (Num 1) naf = Inr s1
                   \<and> update_rewards s1 i (Num 0) naf = Inr s2
                   \<and> reward_estimates s2 ! i = 1 / 2))"
  using assms
  by (simp add: update_rewards_def success_update_def failure_update_def in_range_def Let_def)

theorem C6_update_rewards_witness:
  "update_rewards mab2 0 (Num 1) False
      = Inr (mab2\<lparr> alphas := [1, 0], reward_estimates := [1, 0], totalrewards := 1 \<rparr>)
   \<and> update_rewards mab2 0 (Num 0) False
      = Inr (mab2\<lparr> betas := [1, 0], reward_estimates := [0, 0] \<rparr>)
   \<and> update_rewards mab2 0 NaN False = Inr mab2
   \<and> (\<exists>s1 s2. update_rewards mab2 0 (Num 1) False = Inr s1
            \<and> update_rewards s1 0 (Num 0) False = Inr s2
            \<and> reward_estimates s2 ! 0 = 1 / 2)"
proof -
  have h: "in_range mab2 0" by (simp add: in_range_def mab2_def)
  have z: "alphas mab2 ! 0 = 0 \<and> betas mab2 ! 0 = 0" by (simp add: mab2_def)
  note c = C6_update_rewards [OF h, of False]
  from c have c1: "update_rewards mab2 0 (Num 1) False
      = Inr (mab2\<lparr> alphas := [1, 0], reward_estimates := [1, 0], totalrewards := 1 \<rparr>)"
    by (simp add: mab2_def)
  from c have c2: "update_rewards mab2 0 (Num 0) False
      = Inr (mab2\<lparr> betas := [1, 0], reward_estimates := [0, 0] \<rparr>)"
    by (simp add: mab2_def)
  from c have c3: "update_rewards mab2 0 NaN False = Inr mab2" by blast
  from c z have c4: "\<exists>s1 s2. update_rewards mab2 0 (Num 1) False = Inr s1
            \<and> update_rewards s1 0 (Num 0) False = Inr s2
            \<and> reward_estimates s2 ! 0 = 1 / 2" by blast
  from c1 c2 c3 c4 show ?thesis by blast
qed

text \<open>
  C7. On a non-empty candidate set, UCB1 returns a candidate with zero pulls whenever one
  exists, whatever delta is; otherwise (the epoch being positive, as the bandit's always
  is) it returns a candidate whose score \<open>estimate + sqrt (delta * ln epoch / pulls)\<close> is
  maximal, a negative delta having been replaced by \<open>1 + epoch * (ln epoch)\<^sup>2\<close>.
\<close>

theorem C7_ucb:
  assumes "rewards \<noteq> []" and "length n_pulls = length rewards"
  shows "((\<exists>j<length n_pulls. n_pulls ! j = 0) \<longrightarrow>
            (\<exists>i. ucb rewards n_pulls al be ep eps dlt g = Inr i
                \<and> i < length rewards \<and> n_pulls ! i = 0))
       \<and> ((\<forall>j<length n_pulls. n_pulls ! j \<noteq> 0) \<and> 1 \<le> ep \<longrightarrow>
            (\<exists>i. ucb rewards n_pulls al be ep eps dlt g = Inr i
                \<and> i < length rewards
                \<and> (\<forall>j<length rewards. spec_ucb_score rewards n_pulls ep dlt j
                                        \<le> spec_ucb_score rewards n_pulls ep dlt i)))"
  using ucb_zero_pulls [OF assms] ucb_scores [OF assms] by simp

theorem C7_ucb_witness:
  "ucb [1 / 5, 7 / 10] [3, 0] [0, 0] [3, 0] 4 (1 / 5) (- 1) rng0 = Inr 1
   \<and> ucb [1 / 5, 7 / 10] [1, 1] [0, 1] [1, 0] 1 (1 / 5) 2 rng0 = Inr 1"
proof -
  have ne: "[1 / 5, 7 / 10 :: real] \<noteq> []" by simp
  have l1: "length [3, 0 :: nat] = length [1 / 5, 7 / 10 :: real]" by simp
  have l2: "length [1, 1 :: nat] = length [1 / 5, 7 / 10 :: real]" by simp
  have z: "\<exists>j<length [3, 0 :: nat]. [3, 0 :: nat] ! j = 0"
    by (rule exI [of _ 1]) simp
  have nz: "(\<forall>j<length [1, 1 :: nat]. [1, 1 :: nat] ! j \<noteq> 0) \<and> 1 \<le> (1 :: nat)"
    by (simp add: nth_Cons')
  from C7_ucb [OF ne l1, of "[0, 0]" "[3, 0]" 4 "1 / 5" "- 1" rng0, THEN conjunct1, rule_format, OF z]
  obtain i where a: "ucb [1 / 5, 7 / 10] [3, 0] [0, 0] [3, 0] 4 (1 / 5) (- 1) rng0 = Inr i"
    and i2: "i < length [1 / 5, 7 / 10 :: real]" and iz: "[3, 0 :: nat] ! i = 0"
    by (elim exE conjE)
  from i2 iz have i1: "i = 1" by (cases i) simp_all
  from C7_ucb [OF ne l2, of "[0, 1]" "[1, 0]" 1 "1 / 5" 2 rng0, THEN conjunct2, rule_format, OF nz]
  obtain k where b: "ucb [1 / 5, 7 / 10] [1, 1] [0, 1] [1, 0] 1 (1 / 5) 2 rng0 = Inr k"
    and k2: "k < length [1 / 5, 7 / 10 :: real]"
    and m: "\<forall>j<length [1 / 5, 7 / 10 :: real]. spec_ucb_score [1 / 5, 7 / 10] [1, 1] 1 2 j
                  \<le> spec_ucb_score [1 / 5, 7 / 10] [1, 1] 1 2 k"
    by (elim exE conjE)
  from m have "spec_ucb_score [1 / 5, 7 / 10] [1, 1] 1 2 1
                  \<le> spec_ucb_score [1 / 5, 7 / 10] [1, 1] 1 2 k" by simp
  with k2 have k1: "k = 1"
    by (cases k) (simp_all add: spec_ucb_score_def spec_ucb_delta_def)
  from a b i1 k1 show ?thesis by simp
qed

text \<open>
  C8 fails on the code: \<open>set_rating\<close> writes by label (\<open>.at\<close>),
  \<open>get_known_rating\<close> reads by position (\<open>.iat\<close>), and the matrix of a constructed
  store has rows only for the users with a training rating. In \<open>store0\<close> the matrix has
  one row; writing the held-out rating of user index 2 appends a row labelled 2 at
  position 1, and reading it back at position 2 raises IndexError; after a further write
  for user index 1, reading user index 1 returns the rating written for user index 2.
  (Writing NaN is a no-op, as claimed: \<open>set_rating_NaN\<close>.)
\<close>

theorem C8_set_then_get_fails:
  "DataLayer_init [1, 2, 3] [10] [(1, 10, Num 4), (2, 10, Num 3), (3, 10, Num 5)]
       [9 / 10, 1 / 10, 2 / 10] (1 / 2) 3 3 = Inr store0
   \<and> get_n_users store0 = 3 \<and> get_n_items store0 = 1
   \<and> utility_matrix (set_rating store0 2 0 (Num 5))
       = \<lparr> row_labels = [0, 2], col_labels = [0], cells = [[Num 4], [Num 5]] \<rparr>
   \<and> get_known_rating (set_rating store0 2 0 (Num 5)) 2 0 = Inl IndexError
   \<and> get_known_rating (set_rating (set_rating store0 2 0 (Num 5)) 1 0 (Num 3)) 1 0
       = Inr (Num 5)"
  using store0_init
  by (simp add: get_n_users_def get_n_items_def set_rating_def at_set_def get_known_rating_def
      iat_def store0_def Let_def)

text \<open>
  C9. \<open>isRelevant\<close> holds exactly for a rating that is not NaN and strictly greater than
  the relevance threshold, \<open>isAntiRelevant\<close> exactly for a rating that is not NaN and
  strictly less than the antirelevance threshold; a rating equal to a threshold is not
  classified by that predicate, and a NaN rating is neither relevant nor antirelevant.
\<close>

theorem C9_relevance_predicates_strict:
  "(isRelevant d r \<longleftrightarrow> (\<exists>v. rating r = Num v \<and> v > relevanceThreshold d))
   \<and> (isAntiRelevant d r \<longleftrightarrow> (\<exists>v. rating r = Num v \<and> v < antiRelevanceThreshold d))
   \<and> \<not> isRelevant d (r\<lparr>rating := Num (relevanceThreshold d)\<rparr>)
   \<and> \<not> isAntiRelevant d (r\<lparr>rating := Num (antiRelevanceThreshold d)\<rparr>)
   \<and> \<not> isRelevant d (r\<lparr>rating := NaN\<rparr>)
   \<and> \<not> isAntiRelevant d (r\<lparr>rating := NaN\<rparr>)"
  by (simp add: isRelevant_def isAntiRelevant_def split: num.splits)

text \<open>
  C10. For every constructed store, after any number of \<open>set_rating\<close> calls, and every
  rating record that a user session returns from the held-out set (a stored entry or the
  NaN sentinel), \<open>all_metrics\<close> returns, from any evaluator state: no division is by
  zero.
\<close>

theorem C10_all_metrics_no_zero_division:
  assumes "DataLayer_init us its whole_set rand tp rel anti = Inr d0"
    and "d = set_ratings d0 writes"
    and "UserLayer_init uidx d = Inr ul"
  shows "\<exists>m e'. all_metrics d e (get_test_rating ul item_id) = Inr (m, e')"
proof -
  from DataLayer_init_facts [OF assms(1)] obtain test_idx where
    th: "relevanceThreshold d0 = rel" "antiRelevanceThreshold d0 = anti"
    and c: "(relevantCount d0, antiRelevantCount d0)
          = count_relevant rel anti (map (\<lambda>(u, i, r). r) test_idx)"
    and td: "toDiscoverCount d0 = antiRelevantCount d0 + relevantCount d0"
    and b: "build_test_set test_idx = Inr (test_set d0)" by (elim exE conjE)
  note f = set_ratings_fields [of d0 writes, folded assms(2)]
  from f th have th': "relevanceThreshold d = rel" "antiRelevanceThreshold d = anti" by simp_all
  from f td have td': "toDiscoverCount d = antiRelevantCount d + relevantCount d" by simp
  from f have cnt: "relevantCount d = relevantCount d0" "antiRelevantCount d = antiRelevantCount d0"
    and tst: "test_set d = test_set d0" by simp_all
  from assms(3) have ur: "user_ratings ul = get_user_test_ratings_dict d uidx"
    by (auto simp: UserLayer_init_def Let_def split: sum.splits)
  let ?r = "get_test_rating ul item_id"
  have "(isRelevant d ?r \<longrightarrow> 0 < relevantCount d)
      \<and> (isAntiRelevant d ?r \<longrightarrow> 0 < antiRelevantCount d)"
  proof (cases "map_of (user_ratings ul) item_id")
    case None
    then have "rating ?r = NaN" by (simp add: get_test_rating_def)
    then show ?thesis by (simp add: isRelevant_def isAntiRelevant_def)
  next
    case (Some r)
    then have r: "?r = r" by (simp add: get_test_rating_def)
    from Some ur obtain m where m: "map_of (test_set d0) uidx = Some m"
      and mi: "map_of m item_id = Some r"
      by (cases "map_of (test_set d0) uidx")
         (simp_all add: get_user_test_ratings_dict_def tst)
    from held_out_relevant_counted [OF b c m mi] th' cnt r show ?thesis
      by (auto simp: isRelevant_def isAntiRelevant_def split: num.splits)
  qed
  then show ?thesis using td' by (intro all_metrics_returns) simp_all
qed

theorem C10_all_metrics_no_zero_division_witness:
  "DataLayer_init [1, 2, 3] [10] [(1, 10, Num 4), (2, 10, Num 3), (3, 10, Num 5)]
       [9 / 10, 1 / 10, 2 / 10] (1 / 2) 3 3 = Inr store0
   \<and> UserLayer_init 2 (set_ratings store0 [(1, 0, Num 3)]) = Inr ul2
   \<and> get_test_rating ul2 0 = \<lparr> rating = Num 5 \<rparr>
   \<and> (\<exists>m e'. all_metrics (set_ratings store0 [(1, 0, Num 3)]) Evaluator_init
                 (get_test_rating ul2 0) = Inr (m, e'))"
proof -
  from C10_all_metrics_no_zero_division [OF store0_init refl ul2_init, of Evaluator_init 0]
  have "\<exists>m e'. all_metrics (set_ratings store0 [(1, 0, Num 3)]) Evaluator_init
                 (get_test_rating ul2 0) = Inr (m, e')" .
  moreover have "get_test_rating ul2 0 = \<lparr> rating = Num 5 \<rparr>"
    by (simp add: get_test_rating_def ul2_def)
  ultimately show ?thesis using store0_init ul2_init by simp
qed

end
